theory Spec2Isabelle
  imports Complex_Main "HOL-Library.Product_Lexorder" "HOL-Library.Log_Nat"
begin

section \<open>JavaScript numbers\<close>

text \<open>
  A JavaScript number is an IEEE 754 double; the model carries the real number it
  stands for. A value that may be \<^verbatim>\<open>undefined\<close> (a field missing from a device's
  answer) is an \<open>option\<close>; a relational comparison with \<^verbatim>\<open>undefined\<close> is false in
  JavaScript.
\<close>

definition js_lt :: "real option \<Rightarrow> real \<Rightarrow> bool" where
  "js_lt a c = (case a of None \<Rightarrow> False | Some v \<Rightarrow> v < c)"

definition js_gt :: "real option \<Rightarrow> real \<Rightarrow> bool" where
  "js_gt a c = (case a of None \<Rightarrow> False | Some v \<Rightarrow> c < v)"

text \<open>
  The result of an arithmetic operation and the value of a decimal literal are the
  double nearest to the exact number, the one with the even last digit when two are
  equally near. \<open>binary_exponent a\<close> is the integer \<open>k\<close> with \<open>2^k \<le> a < 2^(k+1)\<close> for
  a positive \<open>a\<close>. A double has 53 binary digits, so the doubles around \<open>x\<close> are the
  multiples of \<open>2^e\<close> with \<open>e\<close> 52 below the exponent of \<open>x\<close>, and never below -1074,
  the step of the smallest doubles. Stored numbers are finite. Overflow to infinity is
  not modelled: the only product the model rounds is a stored double times 0.9, which
  is smaller than the stored double.
\<close>

definition binary_exponent :: "real \<Rightarrow> int" where
  "binary_exponent a =
     (if 1 \<le> a then bitlen \<lfloor>a\<rfloor> - 1 else - bitlen (\<lceil>1 / a\<rceil> - 1))"

definition round_half_even :: "real \<Rightarrow> int" where
  "round_half_even n =
     (let f = \<lfloor>n\<rfloor>; d = n - real_of_int f
      in if d < 1 / 2 then f else if 1 / 2 < d then f + 1 else if even f then f else f + 1)"

definition double_of_real :: "real \<Rightarrow> real" where
  "double_of_real x =
     (if x = 0 then 0
      else
        let e = max (binary_exponent \<bar>x\<bar> - 52) (- 1074);
            n = round_half_even (if 0 \<le> e then x / 2 ^ nat e else x * 2 ^ nat (- e))
        in if 0 \<le> e then real_of_int n * 2 ^ nat e else real_of_int n / 2 ^ nat (- e))"

text \<open>\<^verbatim>\<open>a * b\<close> on two doubles.\<close>

definition js_times :: "real \<Rightarrow> real \<Rightarrow> real" where
  "js_times a b = double_of_real (a * b)"

section \<open>Telemetry service: the power-draw estimate\<close>

text \<open>
  The estimate is modelled in exact arithmetic: its sums are taken as written and only
  the final \<^verbatim>\<open>toFixed(3)\<close> rounds.

  \<^verbatim>\<open>+x.toFixed(3)\<close>: the sign is split off, a magnitude of at least \<open>10^21\<close> is
  printed as it is, any other magnitude becomes \<open>n / 1000\<close> for the integer \<open>n\<close>
  nearest to \<open>1000 * magnitude\<close>, the larger one of two equally near.
\<close>

definition toFixed3 :: "real \<Rightarrow> real" where
  "toFixed3 x =
     (let a = \<bar>x\<bar>;
          m = (if 10 ^ 21 \<le> a then a else real_of_int (round (a * 1000)) / 1000)
      in if x < 0 then - m else m)"

text \<open>
  \<^verbatim>\<open>
  function calculateEnergyDraw(extruderTemp, bedTemp, baseRating) {
      if (extruderTemp < 50 && bedTemp < 30) return 0.05; // standby
      const extruderLoad = extruderTemp > 150 ? 0.25 : 0.05;
      const bedLoad = bedTemp > 50 ? 0.15 : 0.02;
      return +(baseRating * 0.6 + extruderLoad + bedLoad).toFixed(3);
  }
  \<close>
\<close>

definition calculateEnergyDraw :: "real option \<Rightarrow> real option \<Rightarrow> real \<Rightarrow> real" where
  "calculateEnergyDraw extruderTemp bedTemp baseRating =
     (if js_lt extruderTemp 50 \<and> js_lt bedTemp 30 then 0.05
      else
        let extruderLoad = (if js_gt extruderTemp 150 then 0.25 else 0.05);
            bedLoad = (if js_gt bedTemp 50 then 0.15 else 0.02)
        in toFixed3 (baseRating * 0.6 + extruderLoad + bedLoad))"

section \<open>The database\<close>

text \<open>
  The tables of the Prisma schema that the queue engine, the manual assignment route
  and the telemetry service read and write. A table is the list of its rows in
  insertion order; a nullable column is an \<open>option\<close>; a \<^verbatim>\<open>DATETIME\<close> is an
  integer time stamp; a \<^verbatim>\<open>TEXT\<close> status stays a string, as the code compares it.
  Several tables have a column of the same name, so every field carries a prefix for
  its table.
\<close>

record EnergySettings =
  maxLoadKw :: real
  peakProtection :: bool
  warmupStaggering :: bool
  staggerDelayMin :: int
  baseLoadKw :: real

record EnergyReading =
  er_currentKw :: real
  er_maxKw :: real
  er_activeCount :: int
  er_source :: string
  er_recordedAt :: int

record Printer =
  p_id :: int
  p_name :: string
  p_ipAddress :: string
  p_isActive :: bool
  p_maxTempExtruder :: real
  p_energyRating :: real

record PrinterTelemetry =
  t_id :: int
  t_printerId :: int
  t_extruderTemp :: real
  t_bedTemp :: real
  t_progress :: real
  t_status :: string
  t_filamentPresent :: bool
  t_fanRpm :: int
  t_energyDraw :: real
  t_recordedAt :: int

text \<open>
  The message of a printer event is a template filled with the measured temperature
  and the limit; the model keeps the two numbers instead of the formatted text.
\<close>

record PrinterEvent =
  ev_printerId :: int
  ev_level :: string
  ev_code :: string
  ev_message :: "real \<times> real"

record Job =
  j_id :: int
  j_name :: string
  j_status :: string
  j_printerId :: "int option"
  j_startedAt :: "int option"

record QueueItem =
  q_id :: int
  q_jobId :: int
  q_printerId :: "int option"
  q_priority :: int
  q_status :: string
  q_createdAt :: int

record PowerEvent =
  pe_type :: string
  pe_currentKw :: real
  pe_limitKw :: real
  pe_action :: string

record AuditLog =
  al_userId :: int
  al_action :: string
  al_entity :: string
  al_entityId :: int
  al_details :: int

record db =
  db_energySettings :: "EnergySettings option"
  db_energyReading :: "EnergyReading list"
  db_printer :: "Printer list"
  db_printerTelemetry :: "PrinterTelemetry list"
  db_printerTelemetry_seq :: int
  db_printerEvent :: "PrinterEvent list"
  db_queueItem :: "QueueItem list"
  db_job :: "Job list"
  db_powerEvent :: "PowerEvent list"
  db_auditLog :: "AuditLog list"

text \<open>
  \<^verbatim>\<open>findFirst({ orderBy: { recordedAt: 'desc' } })\<close>: the row with the greatest key, or
  nothing on an empty table. SQL leaves the choice among rows of equal key open; the
  model takes the one inserted first.
\<close>

fun findFirst_desc :: "('a \<Rightarrow> int) \<Rightarrow> 'a list \<Rightarrow> 'a option" where
  "findFirst_desc k [] = None"
| "findFirst_desc k (x # xs) =
     (case findFirst_desc k xs of
        None \<Rightarrow> Some x
      | Some y \<Rightarrow> if k x < k y then Some y else Some x)"

definition latestEnergy :: "db \<Rightarrow> EnergyReading option" where
  "latestEnergy s = findFirst_desc er_recordedAt (db_energyReading s)"

definition latestTelemetry :: "db \<Rightarrow> int \<Rightarrow> PrinterTelemetry option" where
  "latestTelemetry s printerId =
     findFirst_desc t_recordedAt (filter (\<lambda>t. t_printerId t = printerId) (db_printerTelemetry s))"

text \<open>
  A write of the assignment paths either commits or throws. It throws when the row it
  names does not exist, and it can throw for reasons outside the data (the store is
  busy, the disk fails, the process loses its connection): \<open>fails w\<close> says that the
  write \<open>w\<close> throws for such a reason. Both callers wrap their body in
  \<^verbatim>\<open>try { ... } catch\<close>, so a throw ends the call and keeps what was committed before.
  The reads of the assignment paths are taken to return what the store holds.

  The telemetry poll wraps its whole loop over the printers in one
  \<^verbatim>\<open>try { ... } catch\<close>, so there a throwing call of any kind, a read included, ends
  the poll for the printer at hand and for all printers after it. The calls of the
  poll are named here as well, each with the id of the printer it is made for.
\<close>

datatype db_write =
    QueueItemUpdate int
  | JobUpdate int
  | PowerEventCreate
  | AuditLogCreate
  | PrinterFindMany
  | PrinterTelemetryCreate int
  | PrinterEventCreate int
  | PrinterTelemetryCount int
  | PrinterTelemetryFindMany int
  | PrinterTelemetryDeleteMany int

definition no_fault :: "db_write \<Rightarrow> bool" where
  "no_fault w = False"

text \<open>
  \<^verbatim>\<open>queueItem.update({ where: { id }, data: { printerId, status: 'assigned' } })\<close>,
  returning the updated row.
\<close>

definition queueItem_update ::
    "(db_write \<Rightarrow> bool) \<Rightarrow> int \<Rightarrow> int \<Rightarrow> db \<Rightarrow> (QueueItem \<times> db) option" where
  "queueItem_update fails qid printerId s =
     (if fails (QueueItemUpdate qid) then None
      else case find (\<lambda>q. q_id q = qid) (db_queueItem s) of
        None \<Rightarrow> None
      | Some q \<Rightarrow>
          Some (q\<lparr>q_printerId := Some printerId, q_status := ''assigned''\<rparr>,
                s\<lparr>db_queueItem :=
                    map (\<lambda>q. if q_id q = qid
                              then q\<lparr>q_printerId := Some printerId, q_status := ''assigned''\<rparr>
                              else q) (db_queueItem s)\<rparr>))"

text \<open>
  \<^verbatim>\<open>job.update({ where: { id }, data: { printerId, status: 'printing', startedAt: new Date() } })\<close>
\<close>

definition job_update :: "(db_write \<Rightarrow> bool) \<Rightarrow> int \<Rightarrow> int \<Rightarrow> int \<Rightarrow> db \<Rightarrow> db option" where
  "job_update fails jid printerId now s =
     (if fails (JobUpdate jid) then None
      else case find (\<lambda>j. j_id j = jid) (db_job s) of
        None \<Rightarrow> None
      | Some _ \<Rightarrow>
          Some (s\<lparr>db_job :=
                    map (\<lambda>j. if j_id j = jid
                              then j\<lparr>j_printerId := Some printerId, j_status := ''printing'',
                                     j_startedAt := Some now\<rparr>
                              else j) (db_job s)\<rparr>))"

section \<open>The energy gate\<close>

text \<open>
  Both assignment paths open with the same test, written out in each:
  \<^verbatim>\<open>
  if (settings?.peakProtection && latestEnergy) {
      const threshold = settings.maxLoadKw * 0.9;
      if (latestEnergy.currentKw >= threshold) { ... }
  \<close>
  \<open>energyGate\<close> is that test: the blocking load and the limit when the inner branch is
  entered, \<open>None\<close> otherwise. The threshold is the product as JavaScript computes it:
  the literal \<^verbatim>\<open>0.9\<close> is the double nearest to nine tenths and the product is rounded
  to a double.
\<close>

definition energyGate :: "EnergySettings option \<Rightarrow> EnergyReading option \<Rightarrow> (real \<times> real) option" where
  "energyGate settings latest =
     (case settings of
        None \<Rightarrow> None
      | Some st \<Rightarrow>
          if peakProtection st then
            (case latest of
               None \<Rightarrow> None
             | Some e \<Rightarrow>
                 let threshold = js_times (maxLoadKw st) (double_of_real 0.9)
                 in if threshold \<le> er_currentKw e then Some (er_currentKw e, maxLoadKw st)
                    else None)
          else None)"

section \<open>The queue engine: one tick\<close>

text \<open>
  \<^verbatim>\<open>
  const allPrinters = await prismaClient.printer.findMany({ where: { isActive: true } });
  for (const printer of allPrinters) {
      const latestTelemetry = ... findFirst({ where: { printerId: printer.id },
                                              orderBy: { recordedAt: 'desc' } });
      if (!latestTelemetry || latestTelemetry.status === 'idle'
                           || latestTelemetry.status === 'offline') idlePrinters.push(printer);
  }
  \<close>
\<close>

definition idlePrinters :: "db \<Rightarrow> Printer list" where
  "idlePrinters s =
     filter (\<lambda>printer.
               case latestTelemetry s (p_id printer) of
                 None \<Rightarrow> True
               | Some t \<Rightarrow> t_status t = ''idle'' \<or> t_status t = ''offline'')
            (filter p_isActive (db_printer s))"

text \<open>
  \<^verbatim>\<open>
  queueItem.findMany({ where: { status: 'queued', printerId: null },
                       orderBy: [{ priority: 'asc' }, { createdAt: 'asc' }], take: n })
  \<close>
  \<open>candidates\<close> is the query without its \<^verbatim>\<open>take\<close>. Rows equal in both keys keep
  their table order.
\<close>

definition candidates :: "db \<Rightarrow> QueueItem list" where
  "candidates s =
     sort_key (\<lambda>q. (q_priority q, q_createdAt q))
       (filter (\<lambda>q. q_status q = ''queued'' \<and> q_printerId q = None) (db_queueItem s))"

text \<open>
  The matching loop over \<open>i < min(queueItems.length, idlePrinters.length)\<close>, as a
  recursion over the pairs \<open>(queueItems[i], idlePrinters[i])\<close>. \<open>clock i\<close> is the time
  \<^verbatim>\<open>new Date()\<close> reads in round \<open>i\<close>. The warm-up pause before a round only waits; it
  writes nothing, and the model has no step for it.
\<close>

fun matchLoop ::
    "(db_write \<Rightarrow> bool) \<Rightarrow> (nat \<Rightarrow> int) \<Rightarrow> nat \<Rightarrow> (QueueItem \<times> Printer) list \<Rightarrow> db \<Rightarrow> db" where
  "matchLoop fails clock i [] s = s"
| "matchLoop fails clock i ((item, printer) # rest) s =
     (case queueItem_update fails (q_id item) (p_id printer) s of
        None \<Rightarrow> s
      | Some (_, s1) \<Rightarrow>
          (case job_update fails (q_jobId item) (p_id printer) (clock i) s1 of
             None \<Rightarrow> s1
           | Some s2 \<Rightarrow> matchLoop fails clock (Suc i) rest s2))"

text \<open>
  \<^verbatim>\<open>processQueue\<close> on a started engine: the energy gate, then the rest of the
  function, \<open>matchQueue\<close>, from "Find idle printers" to the end of the loop. A
  blocked gate is the early \<^verbatim>\<open>return; // silently skip\<close>.
\<close>

definition matchQueue :: "(db_write \<Rightarrow> bool) \<Rightarrow> (nat \<Rightarrow> int) \<Rightarrow> db \<Rightarrow> db" where
  "matchQueue fails clock s =
     (let idle = idlePrinters s
      in if idle = [] then s
         else
           let queueItems = take (length idle) (candidates s)
           in if queueItems = [] then s
              else matchLoop fails clock 0 (zip queueItems idle) s)"

definition processQueue :: "(db_write \<Rightarrow> bool) \<Rightarrow> (nat \<Rightarrow> int) \<Rightarrow> db \<Rightarrow> db" where
  "processQueue fails clock s =
     (case energyGate (db_energySettings s) (latestEnergy s) of
        Some _ \<Rightarrow> s
      | None \<Rightarrow> matchQueue fails clock s)"

section \<open>The manual assignment route\<close>

text \<open>
  \<^verbatim>\<open>PUT /api/queue/:id/assign\<close>, for an authenticated operator \<open>userId\<close> and numeric
  \<open>queueItemId\<close> and \<open>printerId\<close>. The answer is the status the handler sends; the
  broadcast to the sockets writes nothing to the store and is left out.
\<close>

text \<open>
  \<open>assign\<close> is the handler: the energy gate, which on a block writes the
  \<^verbatim>\<open>OVERLOAD_PREVENTED\<close> event and answers 409, then the rest of the handler,
  \<open>assignJob\<close>, from the look-up of the printer to the answer.
  \<^verbatim>\<open>
  if (printerTelemetry?.status === 'printing') {
      return res.status(409).json({ error: 'Printer is currently busy' });
  }
  \<close>
\<close>

datatype response =
    Json QueueItem
  | PeakProtectionActive real real
  | PrinterNotFound
  | PrinterBusy
  | FailedToAssign

definition assignJob ::
    "(db_write \<Rightarrow> bool) \<Rightarrow> int \<Rightarrow> int \<Rightarrow> int \<Rightarrow> int \<Rightarrow> db \<Rightarrow> response \<times> db" where
  "assignJob fails now userId queueItemId printerId s =
     (case find (\<lambda>p. p_id p = printerId) (db_printer s) of
        None \<Rightarrow> (PrinterNotFound, s)
      | Some _ \<Rightarrow>
          if (case latestTelemetry s printerId of
                None \<Rightarrow> False
              | Some t \<Rightarrow> t_status t = ''printing'')
          then (PrinterBusy, s)
          else
            (case queueItem_update fails queueItemId printerId s of
               None \<Rightarrow> (FailedToAssign, s)
             | Some (updated, s1) \<Rightarrow>
                 (case job_update fails (q_jobId updated) printerId now s1 of
                    None \<Rightarrow> (FailedToAssign, s1)
                  | Some s2 \<Rightarrow>
                      if fails AuditLogCreate then (FailedToAssign, s2)
                      else (Json updated,
                            s2\<lparr>db_auditLog := db_auditLog s2 @
                                 [\<lparr>al_userId = userId, al_action = ''JOB_ASSIGNED'',
                                   al_entity = ''QueueItem'', al_entityId = queueItemId,
                                   al_details = printerId\<rparr>]\<rparr>))))"

definition assign ::
    "(db_write \<Rightarrow> bool) \<Rightarrow> int \<Rightarrow> int \<Rightarrow> int \<Rightarrow> int \<Rightarrow> db \<Rightarrow> response \<times> db" where
  "assign fails now userId queueItemId printerId s =
     (case energyGate (db_energySettings s) (latestEnergy s) of
        Some (currentKw, maxKw) \<Rightarrow>
          if fails PowerEventCreate then (FailedToAssign, s)
          else (PeakProtectionActive currentKw maxKw,
                s\<lparr>db_powerEvent := db_powerEvent s @
                     [\<lparr>pe_type = ''OVERLOAD_PREVENTED'', pe_currentKw = currentKw,
                       pe_limitKw = maxKw, pe_action = ''Job assignment blocked''\<rparr>]\<rparr>)
      | None \<Rightarrow> assignJob fails now userId queueItemId printerId s)"

section \<open>The telemetry service: one poll\<close>

text \<open>
  What a printer answers to the status query, \<^verbatim>\<open>response.data.result.status\<close>: every
  field may be missing. An answer without the status object reads as an answer with
  no field set (\<^verbatim>\<open>|| {}\<close>).
\<close>

record klipper_status =
  extruder_temperature :: "real option"
  heater_bed_temperature :: "real option"
  print_stats_progress :: "real option"
  print_stats_state :: "string option"
  fan_speed :: "real option"

text \<open>
  What \<^verbatim>\<open>mapKlipperStatus\<close> hands back: a status text, or a value that is no text at
  all.
\<close>

datatype js_value = Text string | NotText

record poll_data =
  pd_printerId :: int
  pd_extruderTemp :: real
  pd_bedTemp :: real
  pd_progress :: real
  pd_status :: js_value
  pd_filamentPresent :: bool
  pd_fanRpm :: int
  pd_energyDraw :: real
  pd_isReachable :: bool

definition js_or0 :: "real option \<Rightarrow> real" where
  "js_or0 a = (case a of None \<Rightarrow> 0 | Some v \<Rightarrow> v)"

text \<open>
  \<^verbatim>\<open>
  function mapKlipperStatus(state) {
      const map = { printing: 'printing', paused: 'paused', standby: 'idle',
                    complete: 'idle', cancelled: 'idle', error: 'error' };
      return map[state] || 'offline';
  }
  \<close>
  \<open>state\<close> is the reported state as a property key, \<open>None\<close> when the answer has none.
  The table is an object literal, so besides its six own keys a look-up finds what
  every object inherits: under each of the names in \<open>object_prototype_keys\<close> it yields a
  function or an object, which is truthy and is returned as it is.
\<close>

definition object_prototype_keys :: "string list" where
  "object_prototype_keys =
     [''constructor'', ''hasOwnProperty'', ''isPrototypeOf'', ''propertyIsEnumerable'',
      ''toLocaleString'', ''toString'', ''valueOf'', ''__proto__'', ''__defineGetter__'',
      ''__defineSetter__'', ''__lookupGetter__'', ''__lookupSetter__'']"

definition mapKlipperStatus :: "string option \<Rightarrow> js_value" where
  "mapKlipperStatus state =
     (case state of
        None \<Rightarrow> Text ''offline''
      | Some st \<Rightarrow>
          (case map_of [(''printing'', ''printing''), (''paused'', ''paused''),
                        (''standby'', ''idle''), (''complete'', ''idle''),
                        (''cancelled'', ''idle''), (''error'', ''error'')] st of
             Some v \<Rightarrow> Text v
           | None \<Rightarrow> if st \<in> set object_prototype_keys then NotText else Text ''offline''))"

text \<open>
  \<open>pollPrinter printer answer\<close>: \<open>answer\<close> is what the request to the printer's address
  brought back, \<open>None\<close> when it threw (time-out, refused connection). The message of
  the caught error is not kept. The numeric fields of an answer are numbers or missing.
  The progress is kept as the exact product; it plays no part in any call that can
  throw or in the thermal test.
\<close>

definition pollPrinter :: "Printer \<Rightarrow> klipper_status option \<Rightarrow> poll_data" where
  "pollPrinter printer answer =
     (case answer of
        Some data \<Rightarrow>
          \<lparr>pd_printerId = p_id printer,
           pd_extruderTemp = js_or0 (extruder_temperature data),
           pd_bedTemp = js_or0 (heater_bed_temperature data),
           pd_progress = js_or0 (print_stats_progress data) * 100,
           pd_status = mapKlipperStatus (print_stats_state data),
           pd_filamentPresent = True,
           pd_fanRpm = round (js_or0 (fan_speed data) * 5000),
           pd_energyDraw =
             calculateEnergyDraw (extruder_temperature data) (heater_bed_temperature data)
               (p_energyRating printer),
           pd_isReachable = True\<rparr>
      | None \<Rightarrow>
          \<lparr>pd_printerId = p_id printer, pd_extruderTemp = 0, pd_bedTemp = 0, pd_progress = 0,
           pd_status = Text ''offline'', pd_filamentPresent = False, pd_fanRpm = 0,
           pd_energyDraw = 0, pd_isReachable = False\<rparr>)"

text \<open>
  The body of the loop of \<^verbatim>\<open>runPoll\<close> for one printer: save the reading, raise the
  thermal event, trim the printer's history to its last 500 rows.
  \<^verbatim>\<open>
  await prismaClient.printerTelemetry.create({ data: { ..., status: data.status, ... } });
  ...
  if (data.extruderTemp > printer.maxTempExtruder) {
      await prismaClient.printerEvent.create({ data: { printerId: printer.id,
          level: 'CRITICAL', code: 'THERMAL_RUNAWAY', message: ... } });
  ...
  const count = await prismaClient.printerTelemetry.count({ where: { printerId: printer.id } });
  if (count > 500) { ... findMany ... deleteMany ... }
  \<close>
  The result is \<open>Inr\<close> of the store when the body ran to its end and \<open>Inl\<close> of the store
  when a call threw, with what was committed before the throw. The first write throws
  when the status is no text, which the store refuses for its text column; any call
  throws when \<open>fails\<close> says so. The broadcast of the reading writes nothing and is left
  out.
\<close>

definition pollStep ::
    "(db_write \<Rightarrow> bool) \<Rightarrow> (string \<Rightarrow> klipper_status option) \<Rightarrow> int \<Rightarrow> Printer \<Rightarrow> db
      \<Rightarrow> db + db" where
  "pollStep fails answer now printer s =
     (let data = pollPrinter printer (answer (p_ipAddress printer))
      in case pd_status data of
        NotText \<Rightarrow> Inl s
      | Text status \<Rightarrow>
          if fails (PrinterTelemetryCreate (p_id printer)) then Inl s
          else
            let newId = db_printerTelemetry_seq s + 1;
                s1 = s\<lparr>db_printerTelemetry := db_printerTelemetry s @
                          [\<lparr>t_id = newId, t_printerId = pd_printerId data,
                            t_extruderTemp = pd_extruderTemp data, t_bedTemp = pd_bedTemp data,
                            t_progress = pd_progress data, t_status = status,
                            t_filamentPresent = pd_filamentPresent data,
                            t_fanRpm = pd_fanRpm data, t_energyDraw = pd_energyDraw data,
                            t_recordedAt = now\<rparr>],
                        db_printerTelemetry_seq := newId\<rparr>
            in if p_maxTempExtruder printer < pd_extruderTemp data
                  \<and> fails (PrinterEventCreate (p_id printer))
               then Inl s1
               else
                 let s2 = (if p_maxTempExtruder printer < pd_extruderTemp data
                           then s1\<lparr>db_printerEvent := db_printerEvent s1 @
                                     [\<lparr>ev_printerId = p_id printer, ev_level = ''CRITICAL'',
                                       ev_code = ''THERMAL_RUNAWAY'',
                                       ev_message = (pd_extruderTemp data,
                                                     p_maxTempExtruder printer)\<rparr>]\<rparr>
                           else s1)
                 in if fails (PrinterTelemetryCount (p_id printer)) then Inl s2
                    else
                      let rows = filter (\<lambda>t. t_printerId t = p_id printer)
                                   (db_printerTelemetry s2);
                          count = length rows
                      in if 500 < count
                         then
                           if fails (PrinterTelemetryFindMany (p_id printer))
                              \<or> fails (PrinterTelemetryDeleteMany (p_id printer))
                           then Inl s2
                           else
                             let oldest = map t_id (take (count - 500)
                                                      (sort_key t_recordedAt rows))
                             in Inr (s2\<lparr>db_printerTelemetry :=
                                         filter (\<lambda>t. t_id t \<notin> set oldest)
                                           (db_printerTelemetry s2)\<rparr>)
                         else Inr s2)"

text \<open>
  The loop of \<^verbatim>\<open>runPoll\<close> over the active printers stops at the first throw;
  \<^verbatim>\<open>runPoll\<close> on a started service is the look-up of the active printers and the loop.
\<close>

fun pollLoop ::
    "(db_write \<Rightarrow> bool) \<Rightarrow> (string \<Rightarrow> klipper_status option) \<Rightarrow> int \<Rightarrow> Printer list \<Rightarrow> db
      \<Rightarrow> db" where
  "pollLoop fails answer now [] s = s"
| "pollLoop fails answer now (printer # rest) s =
     (case pollStep fails answer now printer s of
        Inl s' \<Rightarrow> s'
      | Inr s' \<Rightarrow> pollLoop fails answer now rest s')"

definition runPoll ::
    "(db_write \<Rightarrow> bool) \<Rightarrow> (string \<Rightarrow> klipper_status option) \<Rightarrow> int \<Rightarrow> db \<Rightarrow> db" where
  "runPoll fails answer now s =
     (if fails PrinterFindMany then s
      else pollLoop fails answer now (filter p_isActive (db_printer s)) s)"

text \<open>
  The interval timer calls \<^verbatim>\<open>runPoll\<close> again and again; a run of polls is the list of
  what each round met: which calls throw, the printers' answers and the time.
\<close>

fun runPolls ::
    "((db_write \<Rightarrow> bool) \<times> (string \<Rightarrow> klipper_status option) \<times> int) list \<Rightarrow> db \<Rightarrow> db" where
  "runPolls [] s = s"
| "runPolls ((fails, answer, now) # rest) s = runPolls rest (runPoll fails answer now s)"

text \<open>The critical thermal events stored for one printer.\<close>

definition thermalEvents :: "db \<Rightarrow> int \<Rightarrow> PrinterEvent list" where
  "thermalEvents s printerId =
     filter (\<lambda>e. ev_printerId e = printerId \<and> ev_level e = ''CRITICAL''
                    \<and> ev_code e = ''THERMAL_RUNAWAY'') (db_printerEvent s)"

section \<open>A small fleet, for concrete runs\<close>

text \<open>
  Two printers, A (id 1) and B (id 2), with the schema's default limits and settings
  (6 kW limit, peak protection on). The tables that change from run to run are the
  arguments of \<open>fleet\<close>.
\<close>

definition printerA :: Printer where
  "printerA = \<lparr>p_id = 1, p_name = ''A'', p_ipAddress = ''10.0.0.1'', p_isActive = True,
                p_maxTempExtruder = 260, p_energyRating = 0.4\<rparr>"

definition printerB :: Printer where
  "printerB = \<lparr>p_id = 2, p_name = ''B'', p_ipAddress = ''10.0.0.2'', p_isActive = True,
                p_maxTempExtruder = 260, p_energyRating = 0.4\<rparr>"

definition settings6 :: EnergySettings where
  "settings6 = \<lparr>maxLoadKw = 6, peakProtection = True, warmupStaggering = True,
                 staggerDelayMin = 5, baseLoadKw = 1.2\<rparr>"

definition reading :: "real \<Rightarrow> int \<Rightarrow> EnergyReading" where
  "reading kw time = \<lparr>er_currentKw = kw, er_maxKw = 6, er_activeCount = 0,
                     er_source = ''calculated'', er_recordedAt = time\<rparr>"

definition telemetry :: "int \<Rightarrow> int \<Rightarrow> string \<Rightarrow> int \<Rightarrow> PrinterTelemetry" where
  "telemetry i printerId status time =
     \<lparr>t_id = i, t_printerId = printerId, t_extruderTemp = 0, t_bedTemp = 0, t_progress = 0,
      t_status = status, t_filamentPresent = True, t_fanRpm = 0, t_energyDraw = 0,
      t_recordedAt = time\<rparr>"

definition entry :: "int \<Rightarrow> int \<Rightarrow> int \<Rightarrow> QueueItem" where
  "entry i priority time = \<lparr>q_id = i, q_jobId = i, q_printerId = None, q_priority = priority,
                           q_status = ''queued'', q_createdAt = time\<rparr>"

definition work :: "int \<Rightarrow> Job" where
  "work i = \<lparr>j_id = i, j_name = ''part'', j_status = ''queued'', j_printerId = None,
              j_startedAt = None\<rparr>"

definition fleet ::
    "EnergyReading list \<Rightarrow> PrinterTelemetry list \<Rightarrow> QueueItem list \<Rightarrow> Job list \<Rightarrow> db" where
  "fleet readings telemetries entries works =
     \<lparr>db_energySettings = Some settings6, db_energyReading = readings,
      db_printer = [printerA, printerB], db_printerTelemetry = telemetries,
      db_printerTelemetry_seq = int (length telemetries), db_printerEvent = [],
      db_queueItem = entries, db_job = works, db_powerEvent = [], db_auditLog = []\<rparr>"

text \<open>Named states and a clock for the concrete runs below.\<close>

definition tick_clock :: "nat \<Rightarrow> int" where
  "tick_clock i = 100 + int i"

definition fleet_at_peak :: db where
  "fleet_at_peak = fleet [reading 5.5 10] [telemetry 1 1 ''idle'' 5] [entry 1 5 1] [work 1]"

definition fleet_unprotected :: db where
  "fleet_unprotected =
     fleet_at_peak\<lparr>db_energySettings := Some (settings6\<lparr>peakProtection := False\<rparr>)\<rparr>"

text \<open>
  The fleet at peak with another limit and another latest sample, for the samples that
  sit on the threshold.
\<close>

definition fleet_limit :: "real \<Rightarrow> real \<Rightarrow> db" where
  "fleet_limit limit sample =
     fleet_at_peak\<lparr>db_energySettings := Some (settings6\<lparr>maxLoadKw := limit\<rparr>),
                   db_energyReading := [reading sample 10]\<rparr>"

definition fleet_unmetered :: db where
  "fleet_unmetered = fleet [] [telemetry 1 1 ''idle'' 5] [entry 1 5 1] [work 1]"

definition fleet_scenario :: db where
  "fleet_scenario =
     fleet [reading 3 10] [telemetry 1 1 ''idle'' 5, telemetry 2 2 ''printing'' 5]
       [entry 1 5 1, entry 2 1 2] [work 1, work 2]"

definition fleet_offline :: db where
  "fleet_offline =
     fleet [reading 3 10] [telemetry 1 1 ''offline'' 5, telemetry 2 2 ''printing'' 5]
       [entry 1 5 1] [work 1]"

text \<open>
  The pairing a tick works through: the id of the i-th candidate is sent to the id of
  the i-th idle printer, for as long as both lists last.
\<close>

definition pairing :: "db \<Rightarrow> int \<Rightarrow> int option" where
  "pairing s = map_of (zip (map q_id (candidates s)) (map p_id (idlePrinters s)))"

text \<open>
  The same pairing seen from the jobs: the job of the i-th pair is sent to the id of
  the pair's printer and the time of round \<open>i\<close>.
\<close>

fun jobPlan ::
    "(nat \<Rightarrow> int) \<Rightarrow> nat \<Rightarrow> (QueueItem \<times> Printer) list \<Rightarrow> (int \<times> int \<times> int) list" where
  "jobPlan clock i [] = []"
| "jobPlan clock i ((item, pr) # rest) =
     (q_jobId item, p_id pr, clock i) # jobPlan clock (Suc i) rest"

definition jobPairing :: "(nat \<Rightarrow> int) \<Rightarrow> db \<Rightarrow> int \<Rightarrow> (int \<times> int) option" where
  "jobPairing clock s = map_of (jobPlan clock 0 (zip (candidates s) (idlePrinters s)))"

text \<open>
  The test that raises the thermal event in a poll: the extruder temperature the poll
  reports for the printer is above the printer's limit.
\<close>

definition overLimit :: "Printer \<Rightarrow> (string \<Rightarrow> klipper_status option) \<Rightarrow> bool" where
  "overLimit printer answer
     = (p_maxTempExtruder printer
          < pd_extruderTemp (pollPrinter printer (answer (p_ipAddress printer))))"

text \<open>
  A poll runs through when no call throws: the look-up of the printers does not fail,
  and for every active printer the reported state maps to a status text and none of
  the calls made for the printer fails.
\<close>

definition runsThrough ::
    "(db_write \<Rightarrow> bool) \<Rightarrow> (string \<Rightarrow> klipper_status option) \<Rightarrow> db \<Rightarrow> bool" where
  "runsThrough fails answer s =
     (\<not> fails PrinterFindMany
      \<and> list_all
          (\<lambda>p. pd_status (pollPrinter p (answer (p_ipAddress p))) \<noteq> NotText
                \<and> \<not> fails (PrinterTelemetryCreate (p_id p))
                \<and> \<not> fails (PrinterEventCreate (p_id p))
                \<and> \<not> fails (PrinterTelemetryCount (p_id p))
                \<and> \<not> fails (PrinterTelemetryFindMany (p_id p))
                \<and> \<not> fails (PrinterTelemetryDeleteMany (p_id p)))
          (filter p_isActive (db_printer s)))"

text \<open>
  Printer A answering with its extruder at 300 degrees (at 200 degrees in
  \<open>warm_answer\<close>), printer B not answering; and a fleet that was never polled.
\<close>

definition hot_answer :: "string \<Rightarrow> klipper_status option" where
  "hot_answer address =
     (if address = ''10.0.0.1''
      then Some \<lparr>extruder_temperature = Some 300, heater_bed_temperature = Some 60,
                 print_stats_progress = Some 0.5, print_stats_state = Some ''printing'',
                 fan_speed = Some 1\<rparr>
      else None)"

definition warm_answer :: "string \<Rightarrow> klipper_status option" where
  "warm_answer address =
     (if address = ''10.0.0.1''
      then Some \<lparr>extruder_temperature = Some 200, heater_bed_temperature = Some 60,
                 print_stats_progress = Some 0.5, print_stats_state = Some ''printing'',
                 fan_speed = Some 1\<rparr>
      else None)"

text \<open>An answer whose state is the name of a property every object inherits.\<close>

definition odd_answer :: "string \<Rightarrow> klipper_status option" where
  "odd_answer address =
     (if address = ''10.0.0.1''
      then Some \<lparr>extruder_temperature = Some 300, heater_bed_temperature = Some 60,
                 print_stats_progress = Some 0.5, print_stats_state = Some ''constructor'',
                 fan_speed = Some 1\<rparr>
      else None)"

definition five_hot_polls ::
    "((db_write \<Rightarrow> bool) \<times> (string \<Rightarrow> klipper_status option) \<times> int) list" where
  "five_hot_polls =
     [(no_fault, hot_answer, 1), (no_fault, hot_answer, 2), (no_fault, hot_answer, 3),
      (no_fault, hot_answer, 4), (no_fault, hot_answer, 5)]"

definition fleet_fresh :: db where
  "fleet_fresh = fleet [] [] [] []"

text \<open>
  A fleet whose only entry is already assigned to printer A and printing there, with
  both printers reporting idle; and a fault in which the write to job 2 throws.
\<close>

definition fleet_assigned :: db where
  "fleet_assigned =
     fleet [reading 3 10] [telemetry 1 1 ''idle'' 5, telemetry 2 2 ''idle'' 5]
       [(entry 1 5 1)\<lparr>q_printerId := Some 1, q_status := ''assigned''\<rparr>]
       [(work 1)\<lparr>j_printerId := Some 1, j_status := ''printing'', j_startedAt := Some 50\<rparr>]"

definition job2_write_fails :: "db_write \<Rightarrow> bool" where
  "job2_write_fails w = (w = JobUpdate 2)"

section \<open>Properties of the rounding to doubles\<close>

text \<open>
  The exponent brackets its argument by powers of two, and the rounded value is never
  further from the exact one than half a step of the doubles around it.
\<close>

lemma binary_exponent_bounds:
  assumes "0 < a"
  shows "2 powr real_of_int (binary_exponent a) \<le> a
         \<and> a < 2 powr real_of_int (binary_exponent a + 1)"
proof (cases "1 \<le> a")
  case True
  let ?n = "\<lfloor>a\<rfloor>"
  have n: "0 < ?n" using True by linarith
  note b = bitlen_bounds [OF n]
  have b1: "1 \<le> bitlen ?n" using n by (simp add: bitlen_alt_def)
  have e: "binary_exponent a = bitlen ?n - 1" using True by (simp add: binary_exponent_def)
  have lo: "2 powr real_of_int (bitlen ?n - 1) = 2 ^ nat (bitlen ?n - 1)"
    using b1 by (simp add: powr_realpow [symmetric])
  have hi: "2 powr real_of_int (bitlen ?n - 1 + 1) = 2 ^ nat (bitlen ?n)"
    using b1 by (simp add: powr_realpow [symmetric])
  from b have "real_of_int (2 ^ nat (bitlen ?n - 1)) \<le> a"
    by (simp only: le_floor_iff)
  then have 1: "2 ^ nat (bitlen ?n - 1) \<le> a" by simp
  from b have "a < real_of_int (2 ^ nat (bitlen ?n))"
    by (simp only: floor_less_iff)
  then have 2: "a < 2 ^ nat (bitlen ?n)" by simp
  show ?thesis unfolding e lo hi using 1 2 by simp
next
  case False
  let ?m = "\<lceil>1 / a\<rceil> - 1"
  have inv: "1 < 1 / a" using False assms by simp
  then have m: "0 < ?m" by linarith
  note b = bitlen_bounds [OF m]
  have b1: "1 \<le> bitlen ?m" using m by (simp add: bitlen_alt_def)
  have e: "binary_exponent a = - bitlen ?m" using False by (simp add: binary_exponent_def)
  have lo: "2 powr real_of_int (- bitlen ?m) = 1 / 2 ^ nat (bitlen ?m)"
    using b1 by (simp add: powr_minus powr_realpow [symmetric] field_simps)
  have hi: "2 powr real_of_int (- bitlen ?m + 1) = 1 / 2 ^ nat (bitlen ?m - 1)"
  proof -
    have "real_of_int (- bitlen ?m + 1) = - real (nat (bitlen ?m - 1))" using b1 by simp
    then show ?thesis by (simp only: powr_minus powr_realpow zero_less_numeral) (simp add: field_simps)
  qed
  have "\<lceil>1 / a\<rceil> \<le> 2 ^ nat (bitlen ?m)" using b by linarith
  then have "1 / a \<le> real_of_int (2 ^ nat (bitlen ?m))"
    by (simp only: ceiling_le_iff)
  then have "1 / a \<le> 2 ^ nat (bitlen ?m)" by simp
  then have 1: "1 / 2 ^ nat (bitlen ?m) \<le> a"
    using assms by (simp add: field_simps)
  have "2 ^ nat (bitlen ?m - 1) < \<lceil>1 / a\<rceil>" using b by linarith
  then have "real_of_int (2 ^ nat (bitlen ?m - 1)) < 1 / a"
    by (simp only: less_ceiling_iff)
  then have "2 ^ nat (bitlen ?m - 1) < 1 / a" by simp
  then have 2: "a < 1 / 2 ^ nat (bitlen ?m - 1)"
    using assms by (simp add: field_simps)
  show ?thesis unfolding e lo hi using 1 2 by simp
qed

lemma round_half_even_nearest: "\<bar>real_of_int (round_half_even n) - n\<bar> \<le> 1 / 2"
proof -
  have "real_of_int \<lfloor>n\<rfloor> \<le> n" and "n < real_of_int \<lfloor>n\<rfloor> + 1"
    by linarith+
  then show ?thesis
    by (auto simp: round_half_even_def Let_def)
qed

lemma double_of_real_nearest:
  "\<bar>double_of_real x - x\<bar>
   \<le> 2 powr real_of_int (max (binary_exponent \<bar>x\<bar> - 52) (- 1074)) / 2"
proof (cases "x = 0")
  case True
  then show ?thesis by (simp add: double_of_real_def)
next
  case False
  define e where "e = max (binary_exponent \<bar>x\<bar> - 52) (- 1074)"
  show ?thesis
  proof (cases "0 \<le> e")
    case True
    define u :: real where "u = 2 ^ nat e"
    have u: "0 < u" by (simp add: u_def)
    have p: "2 powr real_of_int e = u"
      using True by (simp add: u_def powr_realpow [symmetric])
    have "real_of_int (round_half_even (x / u)) * u - x
          = (real_of_int (round_half_even (x / u)) - x / u) * u"
      using u by (simp add: field_simps)
    then have "\<bar>real_of_int (round_half_even (x / u)) * u - x\<bar>
          = \<bar>real_of_int (round_half_even (x / u)) - x / u\<bar> * \<bar>u\<bar>"
      by (simp only: abs_mult)
    also have "\<dots> = \<bar>real_of_int (round_half_even (x / u)) - x / u\<bar> * u"
      using u by simp
    also have "\<dots> \<le> 1 / 2 * u"
      using u round_half_even_nearest [of "x / u"] by (intro mult_right_mono) simp_all
    finally have "\<bar>real_of_int (round_half_even (x / u)) * u - x\<bar> \<le> u / 2" by simp
    then show ?thesis
      using False True unfolding e_def [symmetric] p
      by (simp add: double_of_real_def e_def [symmetric] u_def Let_def)
  next
    case neg: False
    define u :: real where "u = 2 ^ nat (- e)"
    have u: "0 < u" by (simp add: u_def)
    have "real_of_int e = - real (nat (- e))" using neg by simp
    then have p: "2 powr real_of_int e = 1 / u"
      by (simp only: powr_minus powr_realpow zero_less_numeral u_def) (simp add: field_simps)
    have "real_of_int (round_half_even (x * u)) / u - x
          = (real_of_int (round_half_even (x * u)) - x * u) / u"
      using u by (simp add: field_simps)
    then have "\<bar>real_of_int (round_half_even (x * u)) / u - x\<bar>
          = \<bar>real_of_int (round_half_even (x * u)) - x * u\<bar> / \<bar>u\<bar>"
      by (simp only: abs_divide)
    also have "\<dots> = \<bar>real_of_int (round_half_even (x * u)) - x * u\<bar> / u"
      using u by simp
    also have "\<dots> \<le> (1 / 2) / u"
      using u round_half_even_nearest [of "x * u"] by (intro divide_right_mono) simp_all
    finally have "\<bar>real_of_int (round_half_even (x * u)) / u - x\<bar> \<le> 1 / u / 2" by simp
    then show ?thesis
      using False neg unfolding e_def [symmetric] p
      by (simp add: double_of_real_def e_def [symmetric] u_def Let_def)
  qed
qed

section \<open>Properties of the power-draw estimate\<close>

lemma toFixed3_mono_nonneg:
  assumes "0 \<le> x" and "x \<le> y"
  shows "toFixed3 x \<le> toFixed3 y"
proof -
  have y0: "0 \<le> y" using assms by simp
  consider (big) "10 ^ 21 \<le> x" | (mid) "x < 10 ^ 21" "10 ^ 21 \<le> y" | (small) "y < 10 ^ 21"
    by linarith
  then show ?thesis
  proof cases
    case big
    then have "10 ^ 21 \<le> y" using assms by simp
    with big assms y0 show ?thesis by (simp add: toFixed3_def)
  next
    case mid
    have "round (x * 1000) \<le> round ((10 ^ 21 :: real) * 1000)"
      using mid(1) by (intro round_mono) simp
    also have "round ((10 ^ 21 :: real) * 1000) = 10 ^ 24"
      by (simp add: round_def)
    finally have "real_of_int (round (x * 1000)) \<le> real_of_int (10 ^ 24)"
      by (rule of_int_le_iff [THEN iffD2])
    then have "real_of_int (round (x * 1000)) / 1000 \<le> 10 ^ 21" by simp
    with mid assms y0 show ?thesis by (simp add: toFixed3_def)
  next
    case small
    then have xs: "x < 10 ^ 21" using assms by simp
    have "round (x * 1000) \<le> round (y * 1000)"
      using assms by (intro round_mono) simp
    then have "real_of_int (round (x * 1000)) / 1000 \<le> real_of_int (round (y * 1000)) / 1000"
      by (simp add: divide_right_mono)
    with small xs assms y0 show ?thesis by (simp add: toFixed3_def)
  qed
qed

lemma toFixed3_floor_007: "toFixed3 (7 / 100) = 7 / 100"
  by (simp add: toFixed3_def round_def)

lemma standby_below_heating:
  assumes "7 / 100 \<le> z"
  shows "5 / 100 \<le> toFixed3 z"
proof -
  have "toFixed3 (7 / 100) \<le> toFixed3 z"
    using assms by (intro toFixed3_mono_nonneg) simp_all
  then show ?thesis by (simp add: toFixed3_floor_007)
qed

lemma calculateEnergyDraw_heating:
  assumes "\<not> (e < 50 \<and> b < 30)"
  shows "calculateEnergyDraw (Some e) (Some b) r =
         toFixed3 (r * 0.6 + (if 150 < e then 0.25 else 0.05) + (if 50 < b then 0.15 else 0.02))"
  unfolding calculateEnergyDraw_def js_lt_def js_gt_def Let_def option.case
  using assms by (rule if_not_P)

lemma calculateEnergyDraw_standby:
  assumes "e < 50 \<and> b < 30"
  shows "calculateEnergyDraw (Some e) (Some b) r = 0.05"
  unfolding calculateEnergyDraw_def js_lt_def option.case
  using assms by (rule if_P)

text \<open>
  C9. For a fixed non-negative nominal rating the power-draw estimate is monotone
  non-decreasing in the extruder temperature and in the bed temperature: for
  temperature pairs \<open>(e1, b1) \<le> (e2, b2)\<close> componentwise the estimate of the first is
  at most the estimate of the second. When both temperatures are near ambient
  (extruder under 50 and bed under 30, the source's standby test) the estimate is
  the fixed standby floor 0.05, whatever the rating.
\<close>

theorem calculateEnergyDraw_monotone_standby:
  "(0 \<le> r \<and> e1 \<le> e2 \<and> b1 \<le> b2 \<longrightarrow>
      calculateEnergyDraw (Some e1) (Some b1) r \<le> calculateEnergyDraw (Some e2) (Some b2) r)
   \<and> (e < 50 \<and> b < 30 \<longrightarrow> calculateEnergyDraw (Some e) (Some b) r' = 0.05)"
proof (intro conjI impI)
  assume h: "0 \<le> r \<and> e1 \<le> e2 \<and> b1 \<le> b2"
  let ?x1 = "(if 150 < e1 then 0.25 else 0.05 :: real)"
  let ?x2 = "(if 150 < e2 then 0.25 else 0.05 :: real)"
  let ?y1 = "(if 50 < b1 then 0.15 else 0.02 :: real)"
  let ?y2 = "(if 50 < b2 then 0.15 else 0.02 :: real)"
  have x: "?x1 \<le> ?x2" using h by simp
  have y: "?y1 \<le> ?y2" using h by simp
  have pos: "0 \<le> r * 0.6 + ?x1 + ?y1" using h by simp
  have heat: "toFixed3 (r * 0.6 + ?x1 + ?y1) \<le> toFixed3 (r * 0.6 + ?x2 + ?y2)"
    using x y pos by (intro toFixed3_mono_nonneg) linarith+
  have floor2: "5 / 100 \<le> toFixed3 (r * 0.6 + ?x2 + ?y2)"
    using h by (intro standby_below_heating) simp
  have two: "calculateEnergyDraw (Some e2) (Some b2) r = toFixed3 (r * 0.6 + ?x2 + ?y2)"
    if "\<not> (e1 < 50 \<and> b1 < 30)"
  proof -
    have "\<not> (e2 < 50 \<and> b2 < 30)" using that h by auto
    then show ?thesis by (rule calculateEnergyDraw_heating)
  qed
  show "calculateEnergyDraw (Some e1) (Some b1) r \<le> calculateEnergyDraw (Some e2) (Some b2) r"
  proof (cases "e1 < 50 \<and> b1 < 30")
    case True
    note one = calculateEnergyDraw_standby [OF True, of r]
    show ?thesis
    proof (cases "e2 < 50 \<and> b2 < 30")
      case True
      then show ?thesis using one by (simp add: calculateEnergyDraw_standby)
    next
      case False
      then have "calculateEnergyDraw (Some e2) (Some b2) r = toFixed3 (r * 0.6 + ?x2 + ?y2)"
        by (rule calculateEnergyDraw_heating)
      with one floor2 show ?thesis by simp
    qed
  next
    case False
    then have "calculateEnergyDraw (Some e1) (Some b1) r = toFixed3 (r * 0.6 + ?x1 + ?y1)"
      by (rule calculateEnergyDraw_heating)
    moreover have "calculateEnergyDraw (Some e2) (Some b2) r = toFixed3 (r * 0.6 + ?x2 + ?y2)"
      using False by (intro two) simp
    ultimately show ?thesis using heat by (simp only:)
  qed
next
  assume "e < 50 \<and> b < 30"
  then show "calculateEnergyDraw (Some e) (Some b) r' = 0.05"
    by (rule calculateEnergyDraw_standby)
qed

theorem calculateEnergyDraw_monotone_standby_witness:
  "calculateEnergyDraw (Some 20) (Some 60) 0.4 \<le> calculateEnergyDraw (Some 210) (Some 60) 0.4
   \<and> calculateEnergyDraw (Some 20) (Some 60) 0.4 = 0.44
   \<and> calculateEnergyDraw (Some 210) (Some 60) 0.4 = 0.64
   \<and> calculateEnergyDraw (Some 25) (Some 22) 0.4 = 0.05"
proof -
  have m: "calculateEnergyDraw (Some 20) (Some 60) 0.4 \<le> calculateEnergyDraw (Some 210) (Some 60) 0.4"
    and s: "calculateEnergyDraw (Some 25) (Some 22) 0.4 = 0.05"
    using calculateEnergyDraw_monotone_standby [of "0.4" 20 210 60 60 25 22 "0.4"] by simp_all
  have a: "calculateEnergyDraw (Some 20) (Some 60) 0.4 = 0.44"
    by (simp add: calculateEnergyDraw_def js_lt_def js_gt_def toFixed3_def round_def)
  have b: "calculateEnergyDraw (Some 210) (Some 60) 0.4 = 0.64"
    by (simp add: calculateEnergyDraw_def js_lt_def js_gt_def toFixed3_def round_def)
  from m s a b show ?thesis by simp
qed

section \<open>Properties of the energy gate\<close>

lemmas fleet_defs = fleet_def printerA_def printerB_def settings6_def reading_def
  telemetry_def entry_def work_def

lemmas double_eval = js_times_def double_of_real_def binary_exponent_def compute_bitlen
  round_half_even_def Let_def

lemma nine_tenths: "double_of_real 0.9 = 8106479329266893 / 2 ^ 53"
  by (simp add: double_eval)

text \<open>The limits and samples of the concrete runs are doubles: rounding leaves them as they are.\<close>

lemma stored_doubles:
  "double_of_real 6 = 6" "double_of_real 7 = 7" "double_of_real 6.5 = 6.5"
  "double_of_real 5.5 = 5.5" "double_of_real 3 = 3"
  by (simp_all add: double_eval)

lemma threshold_6: "js_times 6 (double_of_real 0.9) = 6079859496950170 / 2 ^ 50"
  by (simp add: nine_tenths) (simp add: double_eval)

lemma threshold_7: "js_times 7 (double_of_real 0.9) = double_of_real 6.3"
  by (simp add: nine_tenths) (simp add: double_eval)

lemma threshold_65: "double_of_real 5.85 < js_times 6.5 (double_of_real 0.9)"
  by (simp add: nine_tenths) (simp add: double_eval)

lemmas tick_defs = processQueue_def matchQueue_def energyGate_def latestEnergy_def
  latestTelemetry_def idlePrinters_def candidates_def queueItem_update_def job_update_def
  no_fault_def tick_clock_def threshold_6

lemmas assign_defs = assign_def assignJob_def energyGate_def latestEnergy_def
  latestTelemetry_def queueItem_update_def job_update_def no_fault_def threshold_6

lemma energyGate_blocked:
  assumes "db_energySettings s = Some st" and "peakProtection st"
    and "latestEnergy s = Some e" and "js_times (maxLoadKw st) (double_of_real 0.9) \<le> er_currentKw e"
  shows "energyGate (db_energySettings s) (latestEnergy s) = Some (er_currentKw e, maxLoadKw st)"
  using assms by (simp add: energyGate_def)

lemma energyGate_off:
  assumes "db_energySettings s = None
           \<or> (\<exists>st. db_energySettings s = Some st \<and> \<not> peakProtection st)"
  shows "energyGate (db_energySettings s) (latestEnergy s) = None"
  using assms by (auto simp: energyGate_def)

lemma energyGate_no_reading:
  assumes "db_energyReading s = []"
  shows "energyGate (db_energySettings s) (latestEnergy s) = None"
  using assms by (simp add: energyGate_def latestEnergy_def split: option.splits)

lemma fleet_at_peak_settings: "db_energySettings fleet_at_peak = Some settings6"
  by (simp add: fleet_at_peak_def fleet_def)

lemma fleet_at_peak_latest: "latestEnergy fleet_at_peak = Some (reading 5.5 10)"
  by (simp add: fleet_at_peak_def fleet_def latestEnergy_def)

lemma fleet_at_peak_gate:
  "energyGate (db_energySettings fleet_at_peak) (latestEnergy fleet_at_peak) = Some (5.5, 6)"
  by (simp add: fleet_at_peak_settings fleet_at_peak_latest energyGate_def settings6_def
      reading_def threshold_6)

lemma fleet_at_peak_idle: "idlePrinters fleet_at_peak = [printerA, printerB]"
  by (simp add: fleet_at_peak_def fleet_defs idlePrinters_def latestTelemetry_def)

lemma fleet_at_peak_candidates: "candidates fleet_at_peak = [entry 1 5 1]"
  by (simp add: fleet_at_peak_def fleet_defs candidates_def)

lemma fleet_scenario_gate:
  "energyGate (db_energySettings fleet_scenario) (latestEnergy fleet_scenario) = None"
  by (simp add: fleet_scenario_def fleet_defs energyGate_def latestEnergy_def threshold_6)

text \<open>
  C1, as the code has it. With the settings row missing or peak protection off the
  gate lets every assignment through. With peak protection on and a latest energy
  sample, the gate blocks exactly when the sample's currentKw is at least the product
  maxLoadKw * 0.9 as JavaScript computes it, the double nearest to the exact product
  of the limit and the double 0.9. Both paths run the same test: when it lets
  through, the scheduler goes on to its matching and the manual route to its
  assignment; when it blocks, the scheduler ends the tick with the store as it was,
  recording no PowerEvent, and the manual route, provided its write to the event log
  does not fail, answers with the blocking currentKw and the limit and appends one
  PowerEvent carrying the two.
\<close>

theorem energy_gate_both_paths:
  "(db_energySettings s = None \<or> (\<exists>st. db_energySettings s = Some st \<and> \<not> peakProtection st) \<longrightarrow>
      energyGate (db_energySettings s) (latestEnergy s) = None)
   \<and> (db_energySettings s = Some st \<and> peakProtection st \<and> latestEnergy s = Some e \<longrightarrow>
        (energyGate (db_energySettings s) (latestEnergy s) \<noteq> None
           \<longleftrightarrow> js_times (maxLoadKw st) (double_of_real 0.9) \<le> er_currentKw e)
        \<and> (js_times (maxLoadKw st) (double_of_real 0.9) \<le> er_currentKw e \<longrightarrow>
             energyGate (db_energySettings s) (latestEnergy s)
               = Some (er_currentKw e, maxLoadKw st)))
   \<and> (energyGate (db_energySettings s) (latestEnergy s) = None \<longrightarrow>
        processQueue fails clock s = matchQueue fails clock s
        \<and> assign fails now userId queueItemId printerId s
            = assignJob fails now userId queueItemId printerId s)
   \<and> (energyGate (db_energySettings s) (latestEnergy s) = Some (currentKw, limitKw) \<longrightarrow>
        processQueue fails clock s = s
        \<and> (\<not> fails PowerEventCreate \<longrightarrow>
             assign fails now userId queueItemId printerId s
               = (PeakProtectionActive currentKw limitKw,
                  s\<lparr>db_powerEvent := db_powerEvent s @
                       [\<lparr>pe_type = ''OVERLOAD_PREVENTED'', pe_currentKw = currentKw,
                         pe_limitKw = limitKw, pe_action = ''Job assignment blocked''\<rparr>]\<rparr>)))"
proof (intro conjI impI)
  assume "db_energySettings s = None
          \<or> (\<exists>st. db_energySettings s = Some st \<and> \<not> peakProtection st)"
  then show "energyGate (db_energySettings s) (latestEnergy s) = None"
    by (rule energyGate_off)
next
  assume "db_energySettings s = Some st \<and> peakProtection st \<and> latestEnergy s = Some e"
  then show "energyGate (db_energySettings s) (latestEnergy s) \<noteq> None
          \<longleftrightarrow> js_times (maxLoadKw st) (double_of_real 0.9) \<le> er_currentKw e"
    by (simp add: energyGate_def)
next
  assume "db_energySettings s = Some st \<and> peakProtection st \<and> latestEnergy s = Some e"
    and "js_times (maxLoadKw st) (double_of_real 0.9) \<le> er_currentKw e"
  then show "energyGate (db_energySettings s) (latestEnergy s)
               = Some (er_currentKw e, maxLoadKw st)"
    by (simp add: energyGate_def)
next
  assume "energyGate (db_energySettings s) (latestEnergy s) = None"
  then show "processQueue fails clock s = matchQueue fails clock s"
    by (simp add: processQueue_def)
next
  assume "energyGate (db_energySettings s) (latestEnergy s) = None"
  then show "assign fails now userId queueItemId printerId s
               = assignJob fails now userId queueItemId printerId s"
    by (simp add: assign_def)
next
  assume "energyGate (db_energySettings s) (latestEnergy s) = Some (currentKw, limitKw)"
  then show "processQueue fails clock s = s"
    by (simp add: processQueue_def)
next
  assume "energyGate (db_energySettings s) (latestEnergy s) = Some (currentKw, limitKw)"
    and "\<not> fails PowerEventCreate"
  then show "assign fails now userId queueItemId printerId s
               = (PeakProtectionActive currentKw limitKw,
                  s\<lparr>db_powerEvent := db_powerEvent s @
                       [\<lparr>pe_type = ''OVERLOAD_PREVENTED'', pe_currentKw = currentKw,
                         pe_limitKw = limitKw, pe_action = ''Job assignment blocked''\<rparr>]\<rparr>)"
    by (simp add: assign_def)
qed

theorem energy_gate_both_paths_witness:
  "energyGate (db_energySettings fleet_unprotected) (latestEnergy fleet_unprotected) = None
   \<and> energyGate (db_energySettings fleet_at_peak) (latestEnergy fleet_at_peak) = Some (5.5, 6)
   \<and> processQueue no_fault tick_clock fleet_at_peak = fleet_at_peak
   \<and> assign no_fault 100 7 1 1 fleet_at_peak
       = (PeakProtectionActive 5.5 6,
          fleet_at_peak\<lparr>db_powerEvent :=
            [\<lparr>pe_type = ''OVERLOAD_PREVENTED'', pe_currentKw = 5.5, pe_limitKw = 6,
              pe_action = ''Job assignment blocked''\<rparr>]\<rparr>)
   \<and> energyGate (db_energySettings fleet_scenario) (latestEnergy fleet_scenario) = None
   \<and> processQueue no_fault tick_clock fleet_scenario = matchQueue no_fault tick_clock fleet_scenario
   \<and> assign no_fault 100 7 1 1 fleet_scenario = assignJob no_fault 100 7 1 1 fleet_scenario
   \<and> js_times 7 (double_of_real 0.9) = double_of_real 6.3
   \<and> energyGate (db_energySettings (fleet_limit 7 (double_of_real 6.3)))
         (latestEnergy (fleet_limit 7 (double_of_real 6.3)))
       = Some (double_of_real 6.3, 7)
   \<and> double_of_real 5.85 < js_times 6.5 (double_of_real 0.9)
   \<and> energyGate (db_energySettings (fleet_limit 6.5 (double_of_real 5.85)))
         (latestEnergy (fleet_limit 6.5 (double_of_real 5.85)))
       = None"
proof -
  have on7: "db_energySettings (fleet_limit 7 (double_of_real 6.3))
               = Some (settings6\<lparr>maxLoadKw := 7\<rparr>)
             \<and> peakProtection (settings6\<lparr>maxLoadKw := 7\<rparr>)
             \<and> latestEnergy (fleet_limit 7 (double_of_real 6.3))
                 = Some (reading (double_of_real 6.3) 10)"
    by (simp add: fleet_limit_def latestEnergy_def settings6_def)
  have over7: "js_times (maxLoadKw (settings6\<lparr>maxLoadKw := 7\<rparr>)) (double_of_real 0.9)
               \<le> er_currentKw (reading (double_of_real 6.3) 10)"
    by (simp add: reading_def threshold_7)
  have on65: "db_energySettings (fleet_limit 6.5 (double_of_real 5.85))
               = Some (settings6\<lparr>maxLoadKw := 6.5\<rparr>)
             \<and> peakProtection (settings6\<lparr>maxLoadKw := 6.5\<rparr>)
             \<and> latestEnergy (fleet_limit 6.5 (double_of_real 5.85))
                 = Some (reading (double_of_real 5.85) 10)"
    by (simp add: fleet_limit_def latestEnergy_def settings6_def)
  have under65: "\<not> js_times (maxLoadKw (settings6\<lparr>maxLoadKw := 6.5\<rparr>)) (double_of_real 0.9)
                  \<le> er_currentKw (reading (double_of_real 5.85) 10)"
    using threshold_65 by (simp add: reading_def)
  note d = energy_gate_both_paths [where s = "fleet_limit 7 (double_of_real 6.3)"
      and st = "settings6\<lparr>maxLoadKw := 7\<rparr>" and e = "reading (double_of_real 6.3) 10"]
  note f = energy_gate_both_paths [where s = "fleet_limit 6.5 (double_of_real 5.85)"
      and st = "settings6\<lparr>maxLoadKw := 6.5\<rparr>" and e = "reading (double_of_real 5.85) 10"]
  from d on7 over7
  have "energyGate (db_energySettings (fleet_limit 7 (double_of_real 6.3)))
         (latestEnergy (fleet_limit 7 (double_of_real 6.3)))
       = Some (er_currentKw (reading (double_of_real 6.3) 10),
               maxLoadKw (settings6\<lparr>maxLoadKw := 7\<rparr>))"
    by blast
  then have 7: "energyGate (db_energySettings (fleet_limit 7 (double_of_real 6.3)))
         (latestEnergy (fleet_limit 7 (double_of_real 6.3)))
       = Some (double_of_real 6.3, 7)"
    by (simp add: reading_def)
  from f on65 under65
  have 8: "energyGate (db_energySettings (fleet_limit 6.5 (double_of_real 5.85)))
         (latestEnergy (fleet_limit 6.5 (double_of_real 5.85)))
       = None"
    by blast
  have off: "db_energySettings fleet_unprotected = None
             \<or> (\<exists>st. db_energySettings fleet_unprotected = Some st \<and> \<not> peakProtection st)"
    by (simp add: fleet_unprotected_def)
  have on: "db_energySettings fleet_at_peak = Some settings6 \<and> peakProtection settings6
            \<and> latestEnergy fleet_at_peak = Some (reading 5.5 10)"
    by (simp add: fleet_at_peak_settings fleet_at_peak_latest settings6_def)
  have over: "js_times (maxLoadKw settings6) (double_of_real 0.9) \<le> er_currentKw (reading 5.5 10)"
    by (simp add: settings6_def reading_def threshold_6)
  have nf: "\<not> no_fault PowerEventCreate"
    by (simp add: no_fault_def)
  have log: "db_powerEvent fleet_at_peak = []"
    by (simp add: fleet_at_peak_def fleet_def)
  note a = energy_gate_both_paths [where s = fleet_unprotected]
  note b = energy_gate_both_paths [where s = fleet_at_peak and st = settings6
      and e = "reading 5.5 10" and currentKw = "5.5" and limitKw = 6 and fails = no_fault
      and clock = tick_clock and now = 100 and userId = 7 and queueItemId = 1 and printerId = 1]
  note c = energy_gate_both_paths [where s = fleet_scenario and fails = no_fault
      and clock = tick_clock and now = 100 and userId = 7 and queueItemId = 1 and printerId = 1]
  from a off have 1: "energyGate (db_energySettings fleet_unprotected)
                        (latestEnergy fleet_unprotected) = None"
    by blast
  from b on over have "energyGate (db_energySettings fleet_at_peak) (latestEnergy fleet_at_peak)
                         = Some (er_currentKw (reading 5.5 10), maxLoadKw settings6)"
    by blast
  then have 2: "energyGate (db_energySettings fleet_at_peak) (latestEnergy fleet_at_peak)
                  = Some (5.5, 6)"
    by (simp add: settings6_def reading_def)
  from b 2 nf have 3: "processQueue no_fault tick_clock fleet_at_peak = fleet_at_peak"
    and 4: "assign no_fault 100 7 1 1 fleet_at_peak
       = (PeakProtectionActive 5.5 6,
          fleet_at_peak\<lparr>db_powerEvent := db_powerEvent fleet_at_peak @
            [\<lparr>pe_type = ''OVERLOAD_PREVENTED'', pe_currentKw = 5.5, pe_limitKw = 6,
              pe_action = ''Job assignment blocked''\<rparr>]\<rparr>)"
    by blast+
  from c fleet_scenario_gate
  have 5: "processQueue no_fault tick_clock fleet_scenario = matchQueue no_fault tick_clock fleet_scenario"
    and 6: "assign no_fault 100 7 1 1 fleet_scenario = assignJob no_fault 100 7 1 1 fleet_scenario"
    by blast+
  from 1 2 3 4 5 6 7 8 fleet_scenario_gate log threshold_7 threshold_65 show ?thesis
    by simp
qed

text \<open>
  The claim C1 as stated fails on the scheduler path: at 5.5 kW against a 6 kW limit
  the tick is blocked and the PowerEvent log stays empty.
\<close>

theorem scheduler_block_leaves_no_power_event:
  "energyGate (db_energySettings fleet_at_peak) (latestEnergy fleet_at_peak) = Some (5.5, 6)
   \<and> processQueue no_fault tick_clock fleet_at_peak = fleet_at_peak
   \<and> db_powerEvent (processQueue no_fault tick_clock fleet_at_peak) = []"
  by (simp add: processQueue_def fleet_at_peak_gate) (simp add: fleet_at_peak_def fleet_def)

text \<open>
  C2. A scheduler tick that the gate blocks (peak protection on, latest sample at or
  over 90 percent of the limit) returns the store it was given: no queue entry, no
  job, no printer row and no other table is touched, whatever writes would have
  failed and whatever the clock says.
\<close>

theorem processQueue_blocked_unchanged:
  assumes "db_energySettings s = Some st" and "peakProtection st"
    and "latestEnergy s = Some e" and "js_times (maxLoadKw st) (double_of_real 0.9) \<le> er_currentKw e"
  shows "processQueue fails clock s = s"
  using energyGate_blocked [OF assms] by (simp add: processQueue_def)

theorem processQueue_blocked_unchanged_witness:
  "db_energySettings fleet_at_peak = Some settings6 \<and> peakProtection settings6
   \<and> latestEnergy fleet_at_peak = Some (reading 5.5 10)
   \<and> js_times (maxLoadKw settings6) (double_of_real 0.9) \<le> er_currentKw (reading 5.5 10)
   \<and> idlePrinters fleet_at_peak = [printerA, printerB]
   \<and> candidates fleet_at_peak = [entry 1 5 1]
   \<and> processQueue no_fault tick_clock fleet_at_peak = fleet_at_peak"
proof -
  have p: "peakProtection settings6"
    and t: "js_times (maxLoadKw settings6) (double_of_real 0.9) \<le> er_currentKw (reading 5.5 10)"
    by (simp_all add: settings6_def reading_def threshold_6)
  note processQueue_blocked_unchanged [OF fleet_at_peak_settings p fleet_at_peak_latest t]
  then show ?thesis
    using p t fleet_at_peak_settings fleet_at_peak_latest fleet_at_peak_idle
      fleet_at_peak_candidates
    by simp
qed

text \<open>
  C10. With no energy reading stored, the gate lets through whatever the settings
  say, peak protection included: the scheduler tick is its matching and the manual
  route is its assignment.
\<close>

theorem no_reading_no_gate:
  assumes "db_energyReading s = []"
  shows "energyGate (db_energySettings s) (latestEnergy s) = None
         \<and> processQueue fails clock s = matchQueue fails clock s
         \<and> assign fails now userId queueItemId printerId s
             = assignJob fails now userId queueItemId printerId s"
  using energyGate_no_reading [OF assms] by (simp add: processQueue_def assign_def)

theorem no_reading_no_gate_witness:
  "db_energyReading fleet_unmetered = []
   \<and> db_energySettings fleet_unmetered = Some settings6 \<and> peakProtection settings6
   \<and> db_queueItem (processQueue no_fault tick_clock fleet_unmetered)
       = [(entry 1 5 1)\<lparr>q_printerId := Some 1, q_status := ''assigned''\<rparr>]
   \<and> db_job (processQueue no_fault tick_clock fleet_unmetered)
       = [(work 1)\<lparr>j_printerId := Some 1, j_status := ''printing'', j_startedAt := Some 100\<rparr>]
   \<and> fst (assign no_fault 100 7 1 2 fleet_unmetered)
       = Json ((entry 1 5 1)\<lparr>q_printerId := Some 2, q_status := ''assigned''\<rparr>)
   \<and> db_queueItem (snd (assign no_fault 100 7 1 2 fleet_unmetered))
       = [(entry 1 5 1)\<lparr>q_printerId := Some 2, q_status := ''assigned''\<rparr>]"
proof -
  have e: "db_energyReading fleet_unmetered = []"
    by (simp add: fleet_unmetered_def fleet_def)
  note n = no_reading_no_gate [OF e, of no_fault tick_clock 100 7 1 2]
  have m: "matchQueue no_fault tick_clock fleet_unmetered
           = fleet_unmetered\<lparr>
               db_queueItem := [(entry 1 5 1)\<lparr>q_printerId := Some 1, q_status := ''assigned''\<rparr>],
               db_job := [(work 1)\<lparr>j_printerId := Some 1, j_status := ''printing'',
                                    j_startedAt := Some 100\<rparr>]\<rparr>"
    by (simp add: fleet_unmetered_def fleet_defs tick_defs)
  have a: "assignJob no_fault 100 7 1 2 fleet_unmetered
           = (Json ((entry 1 5 1)\<lparr>q_printerId := Some 2, q_status := ''assigned''\<rparr>),
              fleet_unmetered\<lparr>
               db_queueItem := [(entry 1 5 1)\<lparr>q_printerId := Some 2, q_status := ''assigned''\<rparr>],
               db_job := [(work 1)\<lparr>j_printerId := Some 2, j_status := ''printing'',
                                    j_startedAt := Some 100\<rparr>],
               db_auditLog := [\<lparr>al_userId = 7, al_action = ''JOB_ASSIGNED'',
                                 al_entity = ''QueueItem'', al_entityId = 1, al_details = 2\<rparr>]\<rparr>)"
    by (simp add: fleet_unmetered_def fleet_defs assign_defs)
  have p: "db_energySettings fleet_unmetered = Some settings6 \<and> peakProtection settings6"
    by (simp add: fleet_unmetered_def fleet_def settings6_def)
  from n m a e p show ?thesis by simp
qed

section \<open>Properties of a scheduler tick\<close>

lemma queueItem_update_Some:
  assumes "queueItem_update fails qid pid s = Some (u, s1)"
  shows "s1 = s\<lparr>db_queueItem :=
                 map (\<lambda>q. if q_id q = qid then q\<lparr>q_printerId := Some pid, q_status := ''assigned''\<rparr>
                           else q) (db_queueItem s)\<rparr>"
  using assms by (auto simp: queueItem_update_def split: if_splits option.splits)

lemma job_update_Some:
  assumes "job_update fails jid pid now s = Some s2"
  shows "s2 = s\<lparr>db_job :=
                 map (\<lambda>j. if j_id j = jid
                           then j\<lparr>j_printerId := Some pid, j_status := ''printing'',
                                  j_startedAt := Some now\<rparr>
                           else j) (db_job s)\<rparr>"
  using assms by (auto simp: job_update_def split: if_splits option.splits)

lemma matchLoop_queue_rows:
  assumes "snd ` set pairs \<subseteq> P"
  shows "\<forall>q \<in> set (db_queueItem (matchLoop fails clock i pairs s)).
           q \<in> set (db_queueItem s) \<or> (\<exists>p \<in> P. q_printerId q = Some (p_id p))"
  using assms
proof (induction pairs arbitrary: i s)
  case Nil
  then show ?case by simp
next
  case (Cons pair rest)
  obtain item pr where pair: "pair = (item, pr)" by (cases pair)
  from Cons.prems pair have pr: "pr \<in> P" and rest: "snd ` set rest \<subseteq> P" by auto
  show ?case
  proof (cases "queueItem_update fails (q_id item) (p_id pr) s")
    case None
    then show ?thesis by (simp add: pair)
  next
    case (Some r)
    obtain u s1 where r: "r = (u, s1)" by (cases r)
    note s1 = queueItem_update_Some [OF Some [unfolded r]]
    have step: "\<forall>q \<in> set (db_queueItem s1).
                  q \<in> set (db_queueItem s) \<or> (\<exists>p \<in> P. q_printerId q = Some (p_id p))"
      using pr by (auto simp: s1)
    show ?thesis
    proof (cases "job_update fails (q_jobId item) (p_id pr) (clock i) s1")
      case None
      then show ?thesis using step Some r by (simp add: pair)
    next
      case (Some s2)
      have q2: "db_queueItem s2 = db_queueItem s1"
        by (simp add: job_update_Some [OF Some])
      have "\<forall>q \<in> set (db_queueItem (matchLoop fails clock (Suc i) rest s2)).
              q \<in> set (db_queueItem s2) \<or> (\<exists>p \<in> P. q_printerId q = Some (p_id p))"
        using rest by (rule Cons.IH)
      with step q2 have "\<forall>q \<in> set (db_queueItem (matchLoop fails clock (Suc i) rest s2)).
              q \<in> set (db_queueItem s) \<or> (\<exists>p \<in> P. q_printerId q = Some (p_id p))"
        by auto
      then show ?thesis using Some \<open>queueItem_update fails (q_id item) (p_id pr) s = Some r\<close> r
        by (simp add: pair)
    qed
  qed
qed

lemma matchLoop_job_rows:
  assumes "snd ` set pairs \<subseteq> P"
  shows "\<forall>j \<in> set (db_job (matchLoop fails clock i pairs s)).
           j \<in> set (db_job s) \<or> (\<exists>p \<in> P. j_printerId j = Some (p_id p))"
  using assms
proof (induction pairs arbitrary: i s)
  case Nil
  then show ?case by simp
next
  case (Cons pair rest)
  obtain item pr where pair: "pair = (item, pr)" by (cases pair)
  from Cons.prems pair have pr: "pr \<in> P" and rest: "snd ` set rest \<subseteq> P" by auto
  show ?case
  proof (cases "queueItem_update fails (q_id item) (p_id pr) s")
    case None
    then show ?thesis by (simp add: pair)
  next
    case (Some r)
    obtain u s1 where r: "r = (u, s1)" by (cases r)
    have j1: "db_job s1 = db_job s"
      by (simp add: queueItem_update_Some [OF Some [unfolded r]])
    show ?thesis
    proof (cases "job_update fails (q_jobId item) (p_id pr) (clock i) s1")
      case None
      then show ?thesis using j1 Some r by (simp add: pair)
    next
      case (Some s2)
      note s2 = job_update_Some [OF Some]
      have step: "\<forall>j \<in> set (db_job s2).
                    j \<in> set (db_job s) \<or> (\<exists>p \<in> P. j_printerId j = Some (p_id p))"
        using pr j1 by (auto simp: s2)
      have "\<forall>j \<in> set (db_job (matchLoop fails clock (Suc i) rest s2)).
              j \<in> set (db_job s2) \<or> (\<exists>p \<in> P. j_printerId j = Some (p_id p))"
        using rest by (rule Cons.IH)
      with step have "\<forall>j \<in> set (db_job (matchLoop fails clock (Suc i) rest s2)).
              j \<in> set (db_job s) \<or> (\<exists>p \<in> P. j_printerId j = Some (p_id p))"
        by auto
      then show ?thesis using Some \<open>queueItem_update fails (q_id item) (p_id pr) s = Some r\<close> r
        by (simp add: pair)
    qed
  qed
qed

lemma zip_snd_subset: "snd ` set (zip xs ys) \<subseteq> set ys"
  by (auto dest: set_zip_rightD)

lemma processQueue_cases:
  "processQueue fails clock s = s
   \<or> processQueue fails clock s
       = matchLoop fails clock 0 (zip (take (length (idlePrinters s)) (candidates s)) (idlePrinters s)) s"
  by (simp add: processQueue_def matchQueue_def Let_def split: option.splits)

text \<open>
  C4, as the code has it. The printers a tick may give work to are exactly the active
  printers that have no reading at all or whose latest reading says idle or offline.
  Every queue entry and every job the tick changes is given the id of one of these
  printers; a printer whose latest reading says printing, paused, error or any other
  status gets nothing.
\<close>

theorem eligible_printers_idle_offline_or_silent:
  "set (idlePrinters s)
     = {p \<in> set (db_printer s). p_isActive p \<and>
          (case latestTelemetry s (p_id p) of
             None \<Rightarrow> True
           | Some t \<Rightarrow> t_status t = ''idle'' \<or> t_status t = ''offline'')}
   \<and> (\<forall>q \<in> set (db_queueItem (processQueue fails clock s)).
         q \<in> set (db_queueItem s) \<or> (\<exists>p \<in> set (idlePrinters s). q_printerId q = Some (p_id p)))
   \<and> (\<forall>j \<in> set (db_job (processQueue fails clock s)).
         j \<in> set (db_job s) \<or> (\<exists>p \<in> set (idlePrinters s). j_printerId j = Some (p_id p)))"
proof (intro conjI)
  show "set (idlePrinters s)
     = {p \<in> set (db_printer s). p_isActive p \<and>
          (case latestTelemetry s (p_id p) of
             None \<Rightarrow> True
           | Some t \<Rightarrow> t_status t = ''idle'' \<or> t_status t = ''offline'')}"
    by (auto simp: idlePrinters_def)
next
  let ?pairs = "zip (take (length (idlePrinters s)) (candidates s)) (idlePrinters s)"
  have loop: "\<forall>q \<in> set (db_queueItem (matchLoop fails clock 0 ?pairs s)).
         q \<in> set (db_queueItem s) \<or> (\<exists>p \<in> set (idlePrinters s). q_printerId q = Some (p_id p))"
    by (rule matchLoop_queue_rows [OF zip_snd_subset])
  from processQueue_cases [of fails clock s]
  show "\<forall>q \<in> set (db_queueItem (processQueue fails clock s)).
         q \<in> set (db_queueItem s) \<or> (\<exists>p \<in> set (idlePrinters s). q_printerId q = Some (p_id p))"
  proof
    assume "processQueue fails clock s = s"
    then show ?thesis by simp
  next
    assume "processQueue fails clock s = matchLoop fails clock 0 ?pairs s"
    then show ?thesis using loop by simp
  qed
next
  let ?pairs = "zip (take (length (idlePrinters s)) (candidates s)) (idlePrinters s)"
  have loop: "\<forall>j \<in> set (db_job (matchLoop fails clock 0 ?pairs s)).
         j \<in> set (db_job s) \<or> (\<exists>p \<in> set (idlePrinters s). j_printerId j = Some (p_id p))"
    by (rule matchLoop_job_rows [OF zip_snd_subset])
  from processQueue_cases [of fails clock s]
  show "\<forall>j \<in> set (db_job (processQueue fails clock s)).
         j \<in> set (db_job s) \<or> (\<exists>p \<in> set (idlePrinters s). j_printerId j = Some (p_id p))"
  proof
    assume "processQueue fails clock s = s"
    then show ?thesis by simp
  next
    assume "processQueue fails clock s = matchLoop fails clock 0 ?pairs s"
    then show ?thesis using loop by simp
  qed
qed

lemma fleet_scenario_idle: "idlePrinters fleet_scenario = [printerA]"
  by (simp add: fleet_scenario_def fleet_defs idlePrinters_def latestTelemetry_def)

lemma fleet_scenario_tick:
  "processQueue no_fault tick_clock fleet_scenario
   = fleet_scenario\<lparr>
       db_queueItem := [entry 1 5 1, (entry 2 1 2)\<lparr>q_printerId := Some 1, q_status := ''assigned''\<rparr>],
       db_job := [work 1, (work 2)\<lparr>j_printerId := Some 1, j_status := ''printing'',
                                     j_startedAt := Some 100\<rparr>]\<rparr>"
  by (simp add: fleet_scenario_def fleet_defs tick_defs)

theorem eligible_printers_idle_offline_or_silent_witness:
  "set (idlePrinters fleet_scenario) = {printerA}
   \<and> latestTelemetry fleet_scenario (p_id printerB) = Some (telemetry 2 2 ''printing'' 5)
   \<and> (entry 2 1 2)\<lparr>q_printerId := Some 1, q_status := ''assigned''\<rparr>
        \<in> set (db_queueItem (processQueue no_fault tick_clock fleet_scenario))
   \<and> (entry 2 1 2)\<lparr>q_printerId := Some 1, q_status := ''assigned''\<rparr>
        \<notin> set (db_queueItem fleet_scenario)
   \<and> (\<exists>p \<in> set (idlePrinters fleet_scenario).
         q_printerId ((entry 2 1 2)\<lparr>q_printerId := Some 1, q_status := ''assigned''\<rparr>)
           = Some (p_id p))"
proof -
  note t = eligible_printers_idle_offline_or_silent [of fleet_scenario no_fault tick_clock]
  let ?q = "(entry 2 1 2)\<lparr>q_printerId := Some 1, q_status := ''assigned''\<rparr>"
  have i: "set (idlePrinters fleet_scenario) = {printerA}"
    by (simp add: fleet_scenario_idle)
  have b: "latestTelemetry fleet_scenario (p_id printerB) = Some (telemetry 2 2 ''printing'' 5)"
    by (simp add: fleet_scenario_def fleet_defs latestTelemetry_def)
  have post: "?q \<in> set (db_queueItem (processQueue no_fault tick_clock fleet_scenario))"
    by (simp add: fleet_scenario_tick)
  have pre: "?q \<notin> set (db_queueItem fleet_scenario)"
    by (simp add: fleet_scenario_def fleet_defs)
  from t post pre have "\<exists>p \<in> set (idlePrinters fleet_scenario). q_printerId ?q = Some (p_id p)"
    by blast
  with i b post pre show ?thesis by blast
qed

text \<open>
  The claim C4 as stated fails: printer A's latest reading says offline, and the tick
  gives it the queued entry.
\<close>

theorem offline_printer_gets_work:
  "latestTelemetry fleet_offline (p_id printerA) = Some (telemetry 1 1 ''offline'' 5)
   \<and> idlePrinters fleet_offline = [printerA]
   \<and> db_queueItem (processQueue no_fault tick_clock fleet_offline)
       = [(entry 1 5 1)\<lparr>q_printerId := Some (p_id printerA), q_status := ''assigned''\<rparr>]"
  by (simp add: fleet_offline_def fleet_defs tick_defs)

lemma job_update_ok:
  assumes "jid \<in> j_id ` set (db_job s)"
  shows "job_update no_fault jid pid now s
           = Some (s\<lparr>db_job :=
                 map (\<lambda>j. if j_id j = jid
                           then j\<lparr>j_printerId := Some pid, j_status := ''printing'',
                                  j_startedAt := Some now\<rparr>
                           else j) (db_job s)\<rparr>)"
proof -
  from assms have "find (\<lambda>j. j_id j = jid) (db_job s) \<noteq> None"
    by (auto simp: find_None_iff)
  then show ?thesis
    by (auto simp: job_update_def no_fault_def)
qed

lemma q_ids_update:
  "map q_id (map (\<lambda>q. if q_id q = k then q\<lparr>q_printerId := a, q_status := b\<rparr> else q) xs)
   = map q_id xs"
  by (induction xs) auto

lemma j_ids_update:
  "map j_id (map (\<lambda>j. if j_id j = k then j\<lparr>j_printerId := a, j_status := b, j_startedAt := c\<rparr>
                        else j) xs)
   = map j_id xs"
  by (induction xs) auto

lemma jobPlan_map_fst: "map fst (jobPlan clock i pairs) = map (\<lambda>p. q_jobId (fst p)) pairs"
  by (induction pairs arbitrary: i) auto

lemma jobPlan_keys: "fst ` set (jobPlan clock i pairs) = (\<lambda>p. q_jobId (fst p)) ` set pairs"
proof -
  have "set (map fst (jobPlan clock i pairs)) = set (map (\<lambda>p. q_jobId (fst p)) pairs)"
    by (simp only: jobPlan_map_fst)
  then show ?thesis by (simp only: set_map)
qed

lemma queueItem_update_succeeds:
  assumes "\<not> fails (QueueItemUpdate qid)" and "qid \<in> q_id ` set (db_queueItem s)"
  shows "\<exists>u. queueItem_update fails qid pid s
           = Some (u, s\<lparr>db_queueItem :=
                 map (\<lambda>q. if q_id q = qid then q\<lparr>q_printerId := Some pid, q_status := ''assigned''\<rparr>
                           else q) (db_queueItem s)\<rparr>)"
proof -
  from assms(2) have "find (\<lambda>q. q_id q = qid) (db_queueItem s) \<noteq> None"
    by (auto simp: find_None_iff)
  then show ?thesis
    using assms(1) by (auto simp: queueItem_update_def)
qed

lemma job_update_succeeds:
  assumes "\<not> fails (JobUpdate jid)" and "jid \<in> j_id ` set (db_job s)"
  shows "job_update fails jid pid now s
           = Some (s\<lparr>db_job :=
                 map (\<lambda>j. if j_id j = jid
                           then j\<lparr>j_printerId := Some pid, j_status := ''printing'',
                                  j_startedAt := Some now\<rparr>
                           else j) (db_job s)\<rparr>)"
proof -
  from assms(2) have "find (\<lambda>j. j_id j = jid) (db_job s) \<noteq> None"
    by (auto simp: find_None_iff)
  then show ?thesis
    using assms(1) by (auto simp: job_update_def)
qed

text \<open>One round of the loop when neither write fails.\<close>

lemma matchLoop_round:
  assumes "\<not> fails (QueueItemUpdate (q_id item))" and "\<not> fails (JobUpdate (q_jobId item))"
    and "q_id item \<in> q_id ` set (db_queueItem s)"
    and "q_jobId item \<in> j_id ` set (db_job s)"
  shows "matchLoop fails clock i ((item, pr) # rest) s
         = matchLoop fails clock (Suc i) rest
             (s\<lparr>db_queueItem :=
                  map (\<lambda>q. if q_id q = q_id item
                            then q\<lparr>q_printerId := Some (p_id pr), q_status := ''assigned''\<rparr>
                            else q) (db_queueItem s),
                db_job :=
                  map (\<lambda>j. if j_id j = q_jobId item
                            then j\<lparr>j_printerId := Some (p_id pr), j_status := ''printing'',
                                   j_startedAt := Some (clock i)\<rparr>
                            else j) (db_job s)\<rparr>)"
proof -
  let ?s1 = "s\<lparr>db_queueItem :=
                  map (\<lambda>q. if q_id q = q_id item
                            then q\<lparr>q_printerId := Some (p_id pr), q_status := ''assigned''\<rparr>
                            else q) (db_queueItem s)\<rparr>"
  from assms(1,3)
    queueItem_update_succeeds [where fails = fails and qid = "q_id item" and s = s
      and pid = "p_id pr"]
  obtain u where u: "queueItem_update fails (q_id item) (p_id pr) s = Some (u, ?s1)" by blast
  have "q_jobId item \<in> j_id ` set (db_job ?s1)" using assms(4) by simp
  with assms(2) have j: "job_update fails (q_jobId item) (p_id pr) (clock i) ?s1
      = Some (?s1\<lparr>db_job :=
                 map (\<lambda>j. if j_id j = q_jobId item
                           then j\<lparr>j_printerId := Some (p_id pr), j_status := ''printing'',
                                  j_startedAt := Some (clock i)\<rparr>
                           else j) (db_job ?s1)\<rparr>)"
    by (rule job_update_succeeds)
  show ?thesis
    by (simp add: u j)
qed

lemma matchLoop_ok:
  assumes "distinct (map (\<lambda>p. q_id (fst p)) pairs)"
    and "distinct (map (\<lambda>p. q_jobId (fst p)) pairs)"
    and "(\<lambda>p. q_id (fst p)) ` set pairs \<subseteq> q_id ` set (db_queueItem s)"
    and "(\<lambda>p. q_jobId (fst p)) ` set pairs \<subseteq> j_id ` set (db_job s)"
    and "\<forall>(item, pr) \<in> set pairs.
           \<not> fails (QueueItemUpdate (q_id item)) \<and> \<not> fails (JobUpdate (q_jobId item))"
  shows "db_queueItem (matchLoop fails clock i pairs s)
         = map (\<lambda>q. case map_of (map (\<lambda>(item, pr). (q_id item, p_id pr)) pairs) (q_id q) of
                       None \<Rightarrow> q
                     | Some pid \<Rightarrow> q\<lparr>q_printerId := Some pid, q_status := ''assigned''\<rparr>)
             (db_queueItem s)
       \<and> db_job (matchLoop fails clock i pairs s)
         = map (\<lambda>j. case map_of (jobPlan clock i pairs) (j_id j) of
                       None \<Rightarrow> j
                     | Some (pid, t) \<Rightarrow> j\<lparr>j_printerId := Some pid, j_status := ''printing'',
                                            j_startedAt := Some t\<rparr>)
             (db_job s)"
  using assms
proof (induction pairs arbitrary: i s)
  case Nil
  then show ?case by (simp add: map_idI)
next
  case (Cons pair rest)
  obtain item pr where pair: "pair = (item, pr)" by (cases pair)
  let ?upd = "\<lambda>q. if q_id q = q_id item
                   then q\<lparr>q_printerId := Some (p_id pr), q_status := ''assigned''\<rparr> else q"
  let ?jupd = "\<lambda>j. if j_id j = q_jobId item
                    then j\<lparr>j_printerId := Some (p_id pr), j_status := ''printing'',
                           j_startedAt := Some (clock i)\<rparr> else j"
  let ?s2 = "s\<lparr>db_queueItem := map ?upd (db_queueItem s), db_job := map ?jupd (db_job s)\<rparr>"
  from Cons.prems pair have qin: "q_id item \<in> q_id ` set (db_queueItem s)"
    and jin: "q_jobId item \<in> j_id ` set (db_job s)"
    and ok: "\<not> fails (QueueItemUpdate (q_id item))" "\<not> fails (JobUpdate (q_jobId item))"
    by auto
  have step: "matchLoop fails clock i (pair # rest) s = matchLoop fails clock (Suc i) rest ?s2"
    unfolding pair by (rule matchLoop_round [OF ok qin jin])
  have q2: "db_queueItem ?s2 = map ?upd (db_queueItem s)"
    and j2: "db_job ?s2 = map ?jupd (db_job s)" by simp_all
  have "map q_id (db_queueItem ?s2) = map q_id (db_queueItem s)"
    unfolding q2 by (rule q_ids_update)
  then have "set (map q_id (db_queueItem ?s2)) = set (map q_id (db_queueItem s))"
    by (rule arg_cong)
  then have ids: "q_id ` set (db_queueItem ?s2) = q_id ` set (db_queueItem s)"
    by (simp only: set_map)
  have "map j_id (db_job ?s2) = map j_id (db_job s)"
    unfolding j2 by (rule j_ids_update)
  then have "set (map j_id (db_job ?s2)) = set (map j_id (db_job s))"
    by (rule arg_cong)
  then have jids: "j_id ` set (db_job ?s2) = j_id ` set (db_job s)"
    by (simp only: set_map)
  have d: "distinct (map (\<lambda>p. q_id (fst p)) rest)"
    and fresh: "q_id item \<notin> (\<lambda>p. q_id (fst p)) ` set rest"
    using Cons.prems(1) pair by auto
  have dj: "distinct (map (\<lambda>p. q_jobId (fst p)) rest)"
    and jfresh: "q_jobId item \<notin> (\<lambda>p. q_jobId (fst p)) ` set rest"
    using Cons.prems(2) pair by auto
  have r1: "(\<lambda>p. q_id (fst p)) ` set rest \<subseteq> q_id ` set (db_queueItem ?s2)"
    using Cons.prems(3) unfolding ids by auto
  have r2: "(\<lambda>p. q_jobId (fst p)) ` set rest \<subseteq> j_id ` set (db_job ?s2)"
    using Cons.prems(4) unfolding jids by auto
  have r3: "\<forall>(item, pr) \<in> set rest.
           \<not> fails (QueueItemUpdate (q_id item)) \<and> \<not> fails (JobUpdate (q_jobId item))"
    using Cons.prems(5) by auto
  note IH = Cons.IH [OF d dj r1 r2 r3, of "Suc i"]
  have none: "map_of (map (\<lambda>(item, pr). (q_id item, p_id pr)) rest) (q_id item) = None"
    using fresh by (auto simp: map_of_eq_None_iff image_iff)
  have jnone: "map_of (jobPlan clock (Suc i) rest) (q_jobId item) = None"
    using jfresh by (simp add: map_of_eq_None_iff jobPlan_keys)
  have queue: "db_queueItem (matchLoop fails clock i (pair # rest) s)
         = map (\<lambda>q. case map_of (map (\<lambda>(item, pr). (q_id item, p_id pr)) (pair # rest)) (q_id q) of
                       None \<Rightarrow> q
                     | Some pid \<Rightarrow> q\<lparr>q_printerId := Some pid, q_status := ''assigned''\<rparr>)
             (db_queueItem s)"
    unfolding step IH [THEN conjunct1] q2
    by (auto simp: pair none)
  have jobs: "db_job (matchLoop fails clock i (pair # rest) s)
         = map (\<lambda>j. case map_of (jobPlan clock i (pair # rest)) (j_id j) of
                       None \<Rightarrow> j
                     | Some (pid, t) \<Rightarrow> j\<lparr>j_printerId := Some pid, j_status := ''printing'',
                                            j_startedAt := Some t\<rparr>)
             (db_job s)"
    unfolding step IH [THEN conjunct2] j2
    by (auto simp: pair jnone)
  from queue jobs show ?case by (rule conjI)
qed

lemma zip_take_left: "zip (take (length ys) xs) ys = zip xs ys"
proof -
  have "zip (take (length ys) xs) ys = zip (take (length ys) xs) (take (length ys) ys)"
    by simp
  also have "\<dots> = take (length ys) (zip xs ys)"
    by (simp only: take_zip)
  also have "\<dots> = zip xs ys"
    by simp
  finally show ?thesis .
qed

lemma matchQueue_pairs:
  "matchQueue fails clock s = matchLoop fails clock 0 (zip (candidates s) (idlePrinters s)) s"
proof (cases "idlePrinters s = []")
  case True
  then show ?thesis by (simp add: matchQueue_def)
next
  case False
  show ?thesis
  proof (cases "take (length (idlePrinters s)) (candidates s) = []")
    case True
    then have "zip (take (length (idlePrinters s)) (candidates s)) (idlePrinters s) = []"
      by simp
    then have "zip (candidates s) (idlePrinters s) = []"
      by (simp only: zip_take_left)
    with True False show ?thesis by (simp add: matchQueue_def)
  next
    case True': False
    with False show ?thesis by (simp add: matchQueue_def Let_def zip_take_left)
  qed
qed

lemma candidates_set:
  "set (candidates s) = {q \<in> set (db_queueItem s). q_status q = ''queued'' \<and> q_printerId q = None}"
  by (auto simp: candidates_def)

lemma candidates_sorted:
  "sorted (map (\<lambda>q. (q_priority q, q_createdAt q)) (candidates s))"
  by (simp add: candidates_def)

lemma candidates_distinct:
  assumes "distinct (map f (db_queueItem s))"
  shows "distinct (map f (candidates s))"
proof -
  let ?c = "filter (\<lambda>q. q_status q = ''queued'' \<and> q_printerId q = None) (db_queueItem s)"
  have "distinct (map f ?c)"
    using assms by (rule distinct_map_filter)
  then have "distinct ?c \<and> inj_on f (set ?c)"
    by (simp only: distinct_map)
  then have "distinct (candidates s) \<and> inj_on f (set (candidates s))"
    by (simp add: candidates_def)
  then show ?thesis
    by (simp only: distinct_map)
qed

lemma pairs_distinct:
  assumes "distinct (map f (db_queueItem s))"
  shows "distinct (map (\<lambda>p. f (fst p)) (zip (candidates s) (idlePrinters s)))"
proof -
  let ?pairs = "zip (candidates s) (idlePrinters s)"
  have "map (\<lambda>p. f (fst p)) ?pairs = map f (map fst ?pairs)"
    by simp
  also have "\<dots> = take (min (length (candidates s)) (length (idlePrinters s)))
                      (map f (candidates s))"
    by (simp only: map_fst_zip_take take_map)
  finally show ?thesis
    using candidates_distinct [OF assms] by (simp only: distinct_take)
qed

lemma pairing_dom:
  "dom (pairing s)
   = q_id ` set (take (min (length (idlePrinters s)) (length (candidates s))) (candidates s))"
proof -
  have "dom (pairing s) = set (map fst (zip (map q_id (candidates s)) (map p_id (idlePrinters s))))"
    by (simp add: pairing_def dom_map_of_conv_image_fst)
  also have "\<dots> = set (take (min (length (idlePrinters s)) (length (candidates s)))
                          (map q_id (candidates s)))"
    by (simp add: map_fst_zip_take min.commute)
  finally show ?thesis by (simp add: take_map)
qed

lemma pairing_zip:
  "map_of (map (\<lambda>(item, pr). (q_id item, p_id pr)) (zip (candidates s) (idlePrinters s)))
   = pairing s"
  by (simp add: pairing_def zip_map_map)

lemma matchQueue_ok:
  assumes pk: "distinct (map q_id (db_queueItem s))"
    and jk: "distinct (map q_jobId (db_queueItem s))"
    and fk: "q_jobId ` set (db_queueItem s) \<subseteq> j_id ` set (db_job s)"
    and ok: "\<forall>(item, pr) \<in> set (zip (candidates s) (idlePrinters s)).
               \<not> fails (QueueItemUpdate (q_id item)) \<and> \<not> fails (JobUpdate (q_jobId item))"
  shows "db_queueItem (matchQueue fails clock s)
         = map (\<lambda>q. case pairing s (q_id q) of
                       None \<Rightarrow> q
                     | Some pid \<Rightarrow> q\<lparr>q_printerId := Some pid, q_status := ''assigned''\<rparr>)
             (db_queueItem s)
       \<and> db_job (matchQueue fails clock s)
         = map (\<lambda>j. case jobPairing clock s (j_id j) of
                       None \<Rightarrow> j
                     | Some (pid, t) \<Rightarrow> j\<lparr>j_printerId := Some pid, j_status := ''printing'',
                                            j_startedAt := Some t\<rparr>)
             (db_job s)"
proof -
  let ?pairs = "zip (candidates s) (idlePrinters s)"
  have sub: "fst ` set ?pairs \<subseteq> set (db_queueItem s)"
    by (auto dest!: set_zip_leftD simp: candidates_set)
  have q: "(\<lambda>p. q_id (fst p)) ` set ?pairs \<subseteq> q_id ` set (db_queueItem s)"
    using sub by auto
  have j: "(\<lambda>p. q_jobId (fst p)) ` set ?pairs \<subseteq> j_id ` set (db_job s)"
    using sub fk by auto
  show ?thesis
    unfolding matchQueue_pairs pairing_zip [symmetric] jobPairing_def
    using pairs_distinct [OF pk] pairs_distinct [OF jk] q j ok
    by (rule matchLoop_ok)
qed

lemma count_by_id:
  assumes "distinct (map f xs)" and "K \<subseteq> f ` set xs"
  shows "length (filter (\<lambda>x. f x \<in> K) xs) = card K"
proof -
  have "length (filter (\<lambda>x. f x \<in> K) xs) = length (filter (\<lambda>i. i \<in> K) (map f xs))"
    by (simp add: filter_map comp_def)
  also have "\<dots> = card ({i. i \<in> K} \<inter> set (map f xs))"
    using assms(1) by (rule distinct_length_filter)
  also have "{i. i \<in> K} \<inter> set (map f xs) = K"
    using assms(2) by auto
  finally show ?thesis .
qed

lemma new_rows_count:
  assumes pk: "distinct (map q_id (db_queueItem s))"
  shows "length (filter (\<lambda>q. q \<notin> set (db_queueItem s))
           (map (\<lambda>q. case pairing s (q_id q) of
                        None \<Rightarrow> q
                      | Some pid \<Rightarrow> q\<lparr>q_printerId := Some pid, q_status := ''assigned''\<rparr>)
              (db_queueItem s)))
         = min (length (idlePrinters s)) (length (candidates s))"
proof -
  let ?F = "\<lambda>q. case pairing s (q_id q) of
                   None \<Rightarrow> q
                 | Some pid \<Rightarrow> q\<lparr>q_printerId := Some pid, q_status := ''assigned''\<rparr>"
  let ?n = "min (length (idlePrinters s)) (length (candidates s))"
  have inj: "inj_on q_id (set (db_queueItem s))"
    using pk by (simp add: distinct_map)
  have changed: "?F q \<notin> set (db_queueItem s) \<longleftrightarrow> q_id q \<in> dom (pairing s)"
    if q: "q \<in> set (db_queueItem s)" for q
  proof (cases "pairing s (q_id q)")
    case None
    then show ?thesis using q by (simp add: domIff)
  next
    case (Some pid)
    then have "q_id q \<in> dom (pairing s)" by blast
    then obtain c where c: "c \<in> set (candidates s)" and "q_id c = q_id q"
      unfolding pairing_dom by (auto dest: in_set_takeD)
    then have "c = q" using inj q by (auto simp: candidates_set dest: inj_onD)
    with c have queued: "q_status q = ''queued''" by (simp add: candidates_set)
    have "?F q \<notin> set (db_queueItem s)"
    proof
      assume "?F q \<in> set (db_queueItem s)"
      moreover have "q_id (?F q) = q_id q" by (simp add: Some)
      ultimately have "?F q = q" using inj q by (auto dest: inj_onD)
      then have "q_status (?F q) = q_status q" by simp
      then show False using queued by (simp add: Some)
    qed
    then show ?thesis using Some by blast
  qed
  have "length (filter (\<lambda>q. q \<notin> set (db_queueItem s)) (map ?F (db_queueItem s)))
        = length (filter (\<lambda>q. ?F q \<notin> set (db_queueItem s)) (db_queueItem s))"
    by (simp add: filter_map comp_def)
  also have "\<dots> = length (filter (\<lambda>q. q_id q \<in> dom (pairing s)) (db_queueItem s))"
    using changed by (intro arg_cong [where f = length] filter_cong) auto
  also have "\<dots> = card (dom (pairing s))"
    using pk
  proof (rule count_by_id)
    show "dom (pairing s) \<subseteq> q_id ` set (db_queueItem s)"
      unfolding pairing_dom by (auto simp: candidates_set dest!: in_set_takeD)
  qed
  also have "dom (pairing s) = set (take ?n (map q_id (candidates s)))"
    by (simp add: pairing_dom take_map)
  also have "card \<dots> = length (take ?n (map q_id (candidates s)))"
    using candidates_distinct [OF pk] by (intro distinct_card distinct_take)
  also have "\<dots> = ?n" by simp
  finally show ?thesis .
qed

lemma fleet_offline_gate:
  "energyGate (db_energySettings fleet_offline) (latestEnergy fleet_offline) = None"
  by (simp add: fleet_offline_def fleet_defs energyGate_def latestEnergy_def threshold_6)

text \<open>
  C7, as the code has it. Take a tick that the gate lets through, on a store whose
  queue entries have distinct ids and distinct jobs, all of them stored (the keys of
  the schema), and in which no write of the tick fails. The devices the tick counts as
  idle are the active printers with no reading or with a latest reading of idle or
  offline. The candidates are the queued entries without a printer, ordered by
  priority rank ascending and, at equal rank, by insertion time ascending. The tick
  rewrites the queue entry by entry and the jobs job by job: an entry among the first
  \<open>min(idle, candidates)\<close> candidates becomes assigned to the idle printer of the same
  position, and its job is set to that printer, to printing and to the time of its
  round; every other entry and every other job stays as it was. So exactly
  \<open>min(idle, candidates)\<close> rows of the queue are new after the tick.
\<close>

theorem tick_assigns_first_candidates:
  assumes gate: "energyGate (db_energySettings s) (latestEnergy s) = None"
    and pk: "distinct (map q_id (db_queueItem s))"
    and jk: "distinct (map q_jobId (db_queueItem s))"
    and fk: "q_jobId ` set (db_queueItem s) \<subseteq> j_id ` set (db_job s)"
    and ok: "\<forall>(item, pr) \<in> set (zip (candidates s) (idlePrinters s)).
               \<not> fails (QueueItemUpdate (q_id item)) \<and> \<not> fails (JobUpdate (q_jobId item))"
  shows "db_queueItem (processQueue fails clock s)
           = map (\<lambda>q. case pairing s (q_id q) of
                         None \<Rightarrow> q
                       | Some pid \<Rightarrow> q\<lparr>q_printerId := Some pid, q_status := ''assigned''\<rparr>)
               (db_queueItem s)
         \<and> db_job (processQueue fails clock s)
           = map (\<lambda>j. case jobPairing clock s (j_id j) of
                         None \<Rightarrow> j
                       | Some (pid, t) \<Rightarrow> j\<lparr>j_printerId := Some pid, j_status := ''printing'',
                                              j_startedAt := Some t\<rparr>)
               (db_job s)
         \<and> length (filter (\<lambda>q. q \<notin> set (db_queueItem s))
                     (db_queueItem (processQueue fails clock s)))
             = min (length (idlePrinters s)) (length (candidates s))
         \<and> dom (pairing s)
             = q_id ` set (take (min (length (idlePrinters s)) (length (candidates s)))
                            (candidates s))
         \<and> set (idlePrinters s)
             = {p \<in> set (db_printer s). p_isActive p \<and>
                  (case latestTelemetry s (p_id p) of
                     None \<Rightarrow> True
                   | Some t \<Rightarrow> t_status t = ''idle'' \<or> t_status t = ''offline'')}
         \<and> sorted (map (\<lambda>q. (q_priority q, q_createdAt q)) (candidates s))
         \<and> set (candidates s)
             = {q \<in> set (db_queueItem s). q_status q = ''queued'' \<and> q_printerId q = None}"
proof -
  have p: "processQueue fails clock s = matchQueue fails clock s"
    using gate by (simp add: processQueue_def)
  note m = matchQueue_ok [OF pk jk fk ok, of clock]
  have idle: "set (idlePrinters s)
             = {p \<in> set (db_printer s). p_isActive p \<and>
                  (case latestTelemetry s (p_id p) of
                     None \<Rightarrow> True
                   | Some t \<Rightarrow> t_status t = ''idle'' \<or> t_status t = ''offline'')}"
    by (auto simp: idlePrinters_def)
  show ?thesis
    unfolding p m [THEN conjunct1] m [THEN conjunct2]
    using new_rows_count [OF pk] pairing_dom idle candidates_sorted candidates_set
    by blast
qed

theorem tick_assigns_first_candidates_witness:
  "energyGate (db_energySettings fleet_scenario) (latestEnergy fleet_scenario) = None
   \<and> distinct (map q_id (db_queueItem fleet_scenario))
   \<and> distinct (map q_jobId (db_queueItem fleet_scenario))
   \<and> q_jobId ` set (db_queueItem fleet_scenario) \<subseteq> j_id ` set (db_job fleet_scenario)
   \<and> idlePrinters fleet_scenario = [printerA]
   \<and> candidates fleet_scenario = [entry 2 1 2, entry 1 5 1]
   \<and> db_queueItem (processQueue no_fault tick_clock fleet_scenario)
       = [entry 1 5 1, (entry 2 1 2)\<lparr>q_printerId := Some 1, q_status := ''assigned''\<rparr>]
   \<and> db_job (processQueue no_fault tick_clock fleet_scenario)
       = [work 1, (work 2)\<lparr>j_printerId := Some 1, j_status := ''printing'',
                            j_startedAt := Some 100\<rparr>]
   \<and> length (filter (\<lambda>q. q \<notin> set (db_queueItem fleet_scenario))
               (db_queueItem (processQueue no_fault tick_clock fleet_scenario))) = 1"
proof -
  have pk: "distinct (map q_id (db_queueItem fleet_scenario))"
    and jk: "distinct (map q_jobId (db_queueItem fleet_scenario))"
    by (simp_all add: fleet_scenario_def fleet_defs)
  have fk: "q_jobId ` set (db_queueItem fleet_scenario) \<subseteq> j_id ` set (db_job fleet_scenario)"
    by (simp add: fleet_scenario_def fleet_defs)
  have c: "candidates fleet_scenario = [entry 2 1 2, entry 1 5 1]"
    by (simp add: fleet_scenario_def fleet_defs candidates_def)
  have ok: "\<forall>(item, pr) \<in> set (zip (candidates fleet_scenario) (idlePrinters fleet_scenario)).
              \<not> no_fault (QueueItemUpdate (q_id item)) \<and> \<not> no_fault (JobUpdate (q_jobId item))"
    by (simp add: no_fault_def)
  have p: "pairing fleet_scenario = [2 \<mapsto> 1]"
    by (simp add: pairing_def c fleet_scenario_idle) (simp add: entry_def printerA_def)
  have jp: "jobPairing tick_clock fleet_scenario = [2 \<mapsto> (1, 100)]"
    by (simp add: jobPairing_def c fleet_scenario_idle)
       (simp add: entry_def printerA_def tick_clock_def)
  have q: "db_queueItem fleet_scenario = [entry 1 5 1, entry 2 1 2]"
    and j: "db_job fleet_scenario = [work 1, work 2]"
    by (simp_all add: fleet_scenario_def fleet_def)
  note t = tick_assigns_first_candidates [OF fleet_scenario_gate pk jk fk ok, of tick_clock]
  from t have "db_queueItem (processQueue no_fault tick_clock fleet_scenario)
       = map (\<lambda>q. case pairing fleet_scenario (q_id q) of
                     None \<Rightarrow> q
                   | Some pid \<Rightarrow> q\<lparr>q_printerId := Some pid, q_status := ''assigned''\<rparr>)
           (db_queueItem fleet_scenario)"
    by (rule conjunct1)
  then have 1: "db_queueItem (processQueue no_fault tick_clock fleet_scenario)
       = [entry 1 5 1, (entry 2 1 2)\<lparr>q_printerId := Some 1, q_status := ''assigned''\<rparr>]"
    by (simp add: p q) (simp add: entry_def)
  from t have "db_job (processQueue no_fault tick_clock fleet_scenario)
       = map (\<lambda>j. case jobPairing tick_clock fleet_scenario (j_id j) of
                     None \<Rightarrow> j
                   | Some (pid, t) \<Rightarrow> j\<lparr>j_printerId := Some pid, j_status := ''printing'',
                                          j_startedAt := Some t\<rparr>)
           (db_job fleet_scenario)"
    by blast
  then have 2: "db_job (processQueue no_fault tick_clock fleet_scenario)
       = [work 1, (work 2)\<lparr>j_printerId := Some 1, j_status := ''printing'',
                            j_startedAt := Some 100\<rparr>]"
    by (simp add: jp j) (simp add: work_def)
  from t have "length (filter (\<lambda>q. q \<notin> set (db_queueItem fleet_scenario))
               (db_queueItem (processQueue no_fault tick_clock fleet_scenario)))
        = min (length (idlePrinters fleet_scenario)) (length (candidates fleet_scenario))"
    by blast
  then have 3: "length (filter (\<lambda>q. q \<notin> set (db_queueItem fleet_scenario))
               (db_queueItem (processQueue no_fault tick_clock fleet_scenario))) = 1"
    by (simp add: c fleet_scenario_idle)
  from fleet_scenario_gate pk jk fk fleet_scenario_idle c 1 2 3 show ?thesis by blast
qed

text \<open>
  The claim C7 as stated fails: no printer's latest reading says idle (printer A reads
  offline, printer B printing), so the count of idle devices is 0 and
  \<open>min(idleCount, candidateCount)\<close> is 0; the gate lets the tick through, and the tick
  makes one assignment, to the offline printer.
\<close>

theorem one_assignment_with_no_idle_device:
  "db_printer fleet_offline = [printerA, printerB]
   \<and> latestTelemetry fleet_offline (p_id printerA) = Some (telemetry 1 1 ''offline'' 5)
   \<and> latestTelemetry fleet_offline (p_id printerB) = Some (telemetry 2 2 ''printing'' 5)
   \<and> energyGate (db_energySettings fleet_offline) (latestEnergy fleet_offline) = None
   \<and> db_queueItem fleet_offline = [entry 1 5 1]
   \<and> candidates fleet_offline = [entry 1 5 1]
   \<and> db_queueItem (processQueue no_fault tick_clock fleet_offline)
       = [(entry 1 5 1)\<lparr>q_printerId := Some 1, q_status := ''assigned''\<rparr>]
   \<and> db_job (processQueue no_fault tick_clock fleet_offline)
       = [(work 1)\<lparr>j_printerId := Some 1, j_status := ''printing'', j_startedAt := Some 100\<rparr>]"
proof -
  have tick: "processQueue no_fault tick_clock fleet_offline
     = fleet_offline\<lparr>
         db_queueItem := [(entry 1 5 1)\<lparr>q_printerId := Some 1, q_status := ''assigned''\<rparr>],
         db_job := [(work 1)\<lparr>j_printerId := Some 1, j_status := ''printing'',
                              j_startedAt := Some 100\<rparr>]\<rparr>"
    by (simp add: fleet_offline_def fleet_defs tick_defs)
  have rest: "db_printer fleet_offline = [printerA, printerB]"
    "latestTelemetry fleet_offline (p_id printerA) = Some (telemetry 1 1 ''offline'' 5)"
    "latestTelemetry fleet_offline (p_id printerB) = Some (telemetry 2 2 ''printing'' 5)"
    "db_queueItem fleet_offline = [entry 1 5 1]"
    "candidates fleet_offline = [entry 1 5 1]"
    by (simp_all add: fleet_offline_def fleet_defs latestTelemetry_def candidates_def)
  show ?thesis
    unfolding tick using rest fleet_offline_gate by simp
qed

section \<open>Properties of the telemetry poll\<close>

lemma pollStep_outcome:
  "db_printer (case_sum (\<lambda>x. x) (\<lambda>x. x) (pollStep fails answer now pr s)) = db_printer s
   \<and> (db_printerEvent (case_sum (\<lambda>x. x) (\<lambda>x. x) (pollStep fails answer now pr s))
         = db_printerEvent s
       \<or> overLimit pr answer
         \<and> db_printerEvent (case_sum (\<lambda>x. x) (\<lambda>x. x) (pollStep fails answer now pr s))
             = db_printerEvent s @
                 [\<lparr>ev_printerId = p_id pr, ev_level = ''CRITICAL'', ev_code = ''THERMAL_RUNAWAY'',
                   ev_message = (pd_extruderTemp (pollPrinter pr (answer (p_ipAddress pr))),
                                 p_maxTempExtruder pr)\<rparr>])"
proof -
  define data where "data = pollPrinter pr (answer (p_ipAddress pr))"
  show ?thesis
    unfolding pollStep_def overLimit_def data_def [symmetric] Let_def
    by (simp split: js_value.splits)
qed

lemma pollStep_through:
  assumes "pd_status (pollPrinter pr (answer (p_ipAddress pr))) \<noteq> NotText"
    and "\<not> fails (PrinterTelemetryCreate (p_id pr))"
    and "\<not> fails (PrinterEventCreate (p_id pr))"
    and "\<not> fails (PrinterTelemetryCount (p_id pr))"
    and "\<not> fails (PrinterTelemetryFindMany (p_id pr))"
    and "\<not> fails (PrinterTelemetryDeleteMany (p_id pr))"
  shows "\<exists>x. pollStep fails answer now pr s = Inr x
           \<and> db_printerEvent x
               = db_printerEvent s @
                   (if overLimit pr answer
                    then [\<lparr>ev_printerId = p_id pr, ev_level = ''CRITICAL'',
                           ev_code = ''THERMAL_RUNAWAY'',
                           ev_message = (pd_extruderTemp (pollPrinter pr (answer (p_ipAddress pr))),
                                         p_maxTempExtruder pr)\<rparr>]
                    else [])"
proof -
  define data where "data = pollPrinter pr (answer (p_ipAddress pr))"
  from assms(1) obtain status where st: "pd_status data = Text status"
    unfolding data_def by (cases "pd_status (pollPrinter pr (answer (p_ipAddress pr)))") auto
  show ?thesis
    unfolding pollStep_def overLimit_def data_def [symmetric] Let_def
    using assms(2-6) by (simp add: st)
qed

lemma pollStep_events_le:
  "length (thermalEvents (case_sum (\<lambda>x. x) (\<lambda>x. x) (pollStep fails answer now pr s)) pid)
   \<le> length (thermalEvents s pid) + (if p_id pr = pid \<and> overLimit pr answer then 1 else 0)"
  using pollStep_outcome [of fails answer now pr s]
  by (auto simp: thermalEvents_def)

lemma pollStep_events_through:
  assumes "pd_status (pollPrinter pr (answer (p_ipAddress pr))) \<noteq> NotText"
    and "\<not> fails (PrinterTelemetryCreate (p_id pr))"
    and "\<not> fails (PrinterEventCreate (p_id pr))"
    and "\<not> fails (PrinterTelemetryCount (p_id pr))"
    and "\<not> fails (PrinterTelemetryFindMany (p_id pr))"
    and "\<not> fails (PrinterTelemetryDeleteMany (p_id pr))"
  shows "\<exists>x. pollStep fails answer now pr s = Inr x
           \<and> length (thermalEvents x pid)
               = length (thermalEvents s pid)
                 + (if p_id pr = pid \<and> overLimit pr answer then 1 else 0)"
proof -
  from assms
    pollStep_through [where fails = fails and answer = answer and pr = pr and now = now
      and s = s]
  obtain x where "pollStep fails answer now pr s = Inr x"
    and "db_printerEvent x
               = db_printerEvent s @
                   (if overLimit pr answer
                    then [\<lparr>ev_printerId = p_id pr, ev_level = ''CRITICAL'',
                           ev_code = ''THERMAL_RUNAWAY'',
                           ev_message = (pd_extruderTemp (pollPrinter pr (answer (p_ipAddress pr))),
                                         p_maxTempExtruder pr)\<rparr>]
                    else [])"
    by blast
  then show ?thesis
    by (auto simp: thermalEvents_def)
qed

lemma pollLoop_printer:
  "db_printer (pollLoop fails answer now prs s) = db_printer s"
proof (induction prs arbitrary: s)
  case Nil
  show ?case by simp
next
  case (Cons pr prs)
  note o = pollStep_outcome [of fails answer now pr s, THEN conjunct1]
  show ?case
  proof (cases "pollStep fails answer now pr s")
    case (Inl x)
    with o show ?thesis by simp
  next
    case (Inr x)
    with o Cons.IH [of x] show ?thesis by simp
  qed
qed

lemma pollLoop_events_le:
  "length (thermalEvents (pollLoop fails answer now prs s) pid)
   \<le> length (thermalEvents s pid)
     + length (filter (\<lambda>pr. p_id pr = pid \<and> overLimit pr answer) prs)"
proof (induction prs arbitrary: s)
  case Nil
  show ?case by simp
next
  case (Cons pr prs)
  note o = pollStep_events_le [of fails answer now pr s pid]
  show ?case
  proof (cases "pollStep fails answer now pr s")
    case (Inl x)
    with o show ?thesis by (simp split: if_splits)
  next
    case (Inr x)
    with o Cons.IH [of x] show ?thesis by (simp split: if_splits)
  qed
qed

lemma pollLoop_events_through:
  assumes "list_all
          (\<lambda>p. pd_status (pollPrinter p (answer (p_ipAddress p))) \<noteq> NotText
                \<and> \<not> fails (PrinterTelemetryCreate (p_id p))
                \<and> \<not> fails (PrinterEventCreate (p_id p))
                \<and> \<not> fails (PrinterTelemetryCount (p_id p))
                \<and> \<not> fails (PrinterTelemetryFindMany (p_id p))
                \<and> \<not> fails (PrinterTelemetryDeleteMany (p_id p))) prs"
  shows "length (thermalEvents (pollLoop fails answer now prs s) pid)
         = length (thermalEvents s pid)
           + length (filter (\<lambda>pr. p_id pr = pid \<and> overLimit pr answer) prs)"
  using assms
proof (induction prs arbitrary: s)
  case Nil
  show ?case by simp
next
  case (Cons pr prs)
  from Cons.prems have here:
    "pd_status (pollPrinter pr (answer (p_ipAddress pr))) \<noteq> NotText"
    "\<not> fails (PrinterTelemetryCreate (p_id pr))"
    "\<not> fails (PrinterEventCreate (p_id pr))"
    "\<not> fails (PrinterTelemetryCount (p_id pr))"
    "\<not> fails (PrinterTelemetryFindMany (p_id pr))"
    "\<not> fails (PrinterTelemetryDeleteMany (p_id pr))"
    and rest: "list_all
          (\<lambda>p. pd_status (pollPrinter p (answer (p_ipAddress p))) \<noteq> NotText
                \<and> \<not> fails (PrinterTelemetryCreate (p_id p))
                \<and> \<not> fails (PrinterEventCreate (p_id p))
                \<and> \<not> fails (PrinterTelemetryCount (p_id p))
                \<and> \<not> fails (PrinterTelemetryFindMany (p_id p))
                \<and> \<not> fails (PrinterTelemetryDeleteMany (p_id p))) prs"
    by simp_all
  from here
    pollStep_events_through [where fails = fails and answer = answer and pr = pr
      and now = now and s = s and pid = pid]
  obtain x where x: "pollStep fails answer now pr s = Inr x"
    and n: "length (thermalEvents x pid)
               = length (thermalEvents s pid)
                 + (if p_id pr = pid \<and> overLimit pr answer then 1 else 0)"
    by blast
  show ?case
    using Cons.IH [OF rest, of x] n by (simp add: x)
qed

lemma filter_by_key:
  assumes "distinct (map f xs)" and "x \<in> set xs"
  shows "filter (\<lambda>y. f y = f x) xs = [x]"
  using assms
proof (induction xs)
  case Nil
  then show ?case by simp
next
  case (Cons a xs)
  show ?case
  proof (cases "a = x")
    case True
    then have "f x \<notin> f ` set xs" using Cons.prems(1) by simp
    then have "\<forall>y \<in> set xs. f y \<noteq> f x"
      by (metis imageI)
    then have "filter (\<lambda>y. f y = f x) xs = []"
      by (simp add: filter_empty_conv)
    with True show ?thesis by simp
  next
    case False
    then have x: "x \<in> set xs" using Cons.prems(2) by simp
    then have "f a \<noteq> f x" using Cons.prems(1) by auto
    moreover have "filter (\<lambda>y. f y = f x) xs = [x]"
      using Cons.prems(1) x by (intro Cons.IH) simp_all
    ultimately show ?thesis by simp
  qed
qed

lemma hits_of_printer:
  assumes pk: "distinct (map p_id (db_printer s))"
    and pr: "pr \<in> set (db_printer s)" and active: "p_isActive pr"
  shows "length (filter (\<lambda>q. p_id q = p_id pr \<and> overLimit q answer)
                   (filter p_isActive (db_printer s)))
         = (if overLimit pr answer then 1 else 0)"
proof -
  let ?hit = "\<lambda>q. p_id q = p_id pr \<and> overLimit q answer"
  have "filter ?hit (filter p_isActive (db_printer s))
        = filter (\<lambda>q. overLimit q answer \<and> p_isActive q)
            (filter (\<lambda>q. p_id q = p_id pr) (db_printer s))"
    by (simp add: conj_commute conj_left_commute)
  also have "\<dots> = filter (\<lambda>q. overLimit q answer \<and> p_isActive q) [pr]"
    by (simp only: filter_by_key [OF pk pr])
  finally show ?thesis
    using active by simp
qed

lemma runPoll_printer: "db_printer (runPoll fails answer now s) = db_printer s"
  by (simp add: runPoll_def pollLoop_printer)

lemma runPoll_events_le:
  assumes pk: "distinct (map p_id (db_printer s))"
    and pr: "pr \<in> set (db_printer s)" and active: "p_isActive pr"
  shows "length (thermalEvents (runPoll fails answer now s) (p_id pr))
         \<le> length (thermalEvents s (p_id pr)) + (if overLimit pr answer then 1 else 0)"
proof (cases "fails PrinterFindMany")
  case True
  then show ?thesis by (simp add: runPoll_def)
next
  case False
  then have r: "runPoll fails answer now s
                = pollLoop fails answer now (filter p_isActive (db_printer s)) s"
    by (simp add: runPoll_def)
  show ?thesis
    unfolding r
    using pollLoop_events_le [of fails answer now "filter p_isActive (db_printer s)" s "p_id pr"]
    unfolding hits_of_printer [OF assms, of answer] .
qed

lemma runPoll_events_through:
  assumes pk: "distinct (map p_id (db_printer s))"
    and pr: "pr \<in> set (db_printer s)" and active: "p_isActive pr"
    and through: "runsThrough fails answer s"
  shows "length (thermalEvents (runPoll fails answer now s) (p_id pr))
         = length (thermalEvents s (p_id pr)) + (if overLimit pr answer then 1 else 0)"
proof -
  from through have f: "\<not> fails PrinterFindMany"
    and all: "list_all
          (\<lambda>p. pd_status (pollPrinter p (answer (p_ipAddress p))) \<noteq> NotText
                \<and> \<not> fails (PrinterTelemetryCreate (p_id p))
                \<and> \<not> fails (PrinterEventCreate (p_id p))
                \<and> \<not> fails (PrinterTelemetryCount (p_id p))
                \<and> \<not> fails (PrinterTelemetryFindMany (p_id p))
                \<and> \<not> fails (PrinterTelemetryDeleteMany (p_id p)))
          (filter p_isActive (db_printer s))"
    by (simp_all add: runsThrough_def)
  from f have r: "runPoll fails answer now s
                = pollLoop fails answer now (filter p_isActive (db_printer s)) s"
    by (simp add: runPoll_def)
  show ?thesis
    unfolding r
    using pollLoop_events_through [OF all, of now s "p_id pr"]
    unfolding hits_of_printer [OF pk pr active, of answer] .
qed

lemma runsThrough_printer:
  "db_printer s' = db_printer s \<Longrightarrow> runsThrough fails answer s' = runsThrough fails answer s"
  by (simp add: runsThrough_def)

lemma runPolls_events_le:
  assumes pk: "distinct (map p_id (db_printer s))"
    and pr: "pr \<in> set (db_printer s)" and active: "p_isActive pr"
  shows "length (thermalEvents (runPolls polls s) (p_id pr))
         \<le> length (thermalEvents s (p_id pr))
           + length (filter (\<lambda>(fails, answer, now). overLimit pr answer) polls)"
  using pk pr
proof (induction polls arbitrary: s)
  case Nil
  show ?case by simp
next
  case (Cons poll polls)
  obtain fails answer now where poll: "poll = (fails, answer, now)" by (cases poll)
  have pk': "distinct (map p_id (db_printer (runPoll fails answer now s)))"
    and pr': "pr \<in> set (db_printer (runPoll fails answer now s))"
    using Cons.prems by (simp_all add: runPoll_printer)
  note a = Cons.IH [OF pk' pr']
  note b = runPoll_events_le [OF Cons.prems active, of fails answer now]
  have "length (filter (\<lambda>(fails, answer, now). overLimit pr answer) (poll # polls))
        = (if overLimit pr answer then 1 else 0)
          + length (filter (\<lambda>(fails, answer, now). overLimit pr answer) polls)"
    by (simp add: poll)
  with a b show ?case
    by (simp only: poll runPolls.simps)
qed

lemma runPolls_events_through:
  assumes pk: "distinct (map p_id (db_printer s))"
    and pr: "pr \<in> set (db_printer s)" and active: "p_isActive pr"
    and through: "\<forall>(fails, answer, now) \<in> set polls. runsThrough fails answer s"
  shows "length (thermalEvents (runPolls polls s) (p_id pr))
         = length (thermalEvents s (p_id pr))
           + length (filter (\<lambda>(fails, answer, now). overLimit pr answer) polls)"
  using pk pr through
proof (induction polls arbitrary: s)
  case Nil
  show ?case by simp
next
  case (Cons poll polls)
  obtain fails answer now where poll: "poll = (fails, answer, now)" by (cases poll)
  let ?s = "runPoll fails answer now s"
  have same: "db_printer ?s = db_printer s" by (rule runPoll_printer)
  have pk': "distinct (map p_id (db_printer ?s))"
    and pr': "pr \<in> set (db_printer ?s)"
    using Cons.prems(1,2) by (simp_all add: same)
  have here: "runsThrough fails answer s"
    using Cons.prems(3) poll by simp
  have rest: "\<forall>(fails, answer, now) \<in> set polls. runsThrough fails answer ?s"
    using Cons.prems(3) by (auto simp: runsThrough_printer [OF same])
  note a = Cons.IH [OF pk' pr' rest]
  note b = runPoll_events_through [OF Cons.prems(1,2) active here, of now]
  have "length (filter (\<lambda>(fails, answer, now). overLimit pr answer) (poll # polls))
        = (if overLimit pr answer then 1 else 0)
          + length (filter (\<lambda>(fails, answer, now). overLimit pr answer) polls)"
    by (simp add: poll)
  with a b show ?case
    by (simp only: poll runPolls.simps)
qed

lemma fleet_fresh_printers:
  "distinct (map p_id (db_printer fleet_fresh))"
  "printerA \<in> set (db_printer fleet_fresh)"
  "p_isActive printerA"
  by (simp_all add: fleet_fresh_def fleet_def printerA_def printerB_def)

lemma hot_answer_overLimit: "overLimit printerA hot_answer"
  by (simp add: overLimit_def pollPrinter_def hot_answer_def printerA_def js_or0_def)

lemma warm_answer_under: "\<not> overLimit printerA warm_answer"
  by (simp add: overLimit_def pollPrinter_def warm_answer_def printerA_def js_or0_def)

lemma odd_answer_overLimit: "overLimit printerA odd_answer"
  by (simp add: overLimit_def pollPrinter_def odd_answer_def printerA_def js_or0_def)

lemma fleet_fresh_events: "thermalEvents fleet_fresh (p_id printerA) = []"
  by (simp add: thermalEvents_def fleet_fresh_def fleet_def)

lemma hot_answer_through: "runsThrough no_fault hot_answer fleet_fresh"
  by (simp add: runsThrough_def no_fault_def fleet_fresh_def fleet_def printerA_def
      printerB_def pollPrinter_def hot_answer_def mapKlipperStatus_def)

lemma warm_answer_through: "runsThrough no_fault warm_answer fleet_fresh"
  by (simp add: runsThrough_def no_fault_def fleet_fresh_def fleet_def printerA_def
      printerB_def pollPrinter_def warm_answer_def mapKlipperStatus_def)

text \<open>
  A state named like an inherited property: the look-up returns no text, the first
  write of the poll throws, and the poll ends with the store as it was. No reading and
  no event is stored, although the reported temperature is above the limit.
\<close>

lemma inherited_state_ends_poll:
  "mapKlipperStatus (Some ''constructor'') = NotText
   \<and> \<not> runsThrough no_fault odd_answer fleet_fresh
   \<and> runPoll no_fault odd_answer 1 fleet_fresh = fleet_fresh"
proof -
  have m: "mapKlipperStatus (Some ''constructor'') = NotText"
    by (simp add: mapKlipperStatus_def object_prototype_keys_def)
  have p: "pd_status (pollPrinter printerA (odd_answer (p_ipAddress printerA))) = NotText"
    by (simp add: pollPrinter_def odd_answer_def printerA_def m)
  have s: "pollStep no_fault odd_answer 1 printerA fleet_fresh = Inl fleet_fresh"
    by (simp add: pollStep_def p)
  have a: "filter p_isActive (db_printer fleet_fresh) = [printerA, printerB]"
    by (simp add: fleet_fresh_def fleet_def printerA_def printerB_def)
  have "\<not> runsThrough no_fault odd_answer fleet_fresh"
    by (simp add: runsThrough_def a p)
  moreover have "runPoll no_fault odd_answer 1 fleet_fresh = fleet_fresh"
    by (simp add: runPoll_def a s)
  ultimately show ?thesis using m by simp
qed

text \<open>
  C5, as the code has it. The thermal event is raised by level, not by edge. Take an
  active printer, printer ids being unique. In a poll that runs through (no call of
  the poll throws, every active printer's state maps to a status text), one critical
  event is stored for the printer when its reported extruder temperature is above its
  limit and none when it is not; so over a run of such polls the number of new events
  is the number of over-limit polls, and n consecutive over-limit polls store n
  events. Whatever throws, no run of polls stores more than one event per over-limit
  poll.
\<close>

theorem thermal_event_per_hot_poll:
  assumes "distinct (map p_id (db_printer s))"
    and "pr \<in> set (db_printer s)" and "p_isActive pr"
  shows "((\<forall>(fails, answer, now) \<in> set polls. runsThrough fails answer s) \<longrightarrow>
            length (thermalEvents (runPolls polls s) (p_id pr))
              = length (thermalEvents s (p_id pr))
                + length (filter (\<lambda>(fails, answer, now). overLimit pr answer) polls))
         \<and> ((\<forall>(fails, answer, now) \<in> set polls.
                runsThrough fails answer s \<and> overLimit pr answer) \<longrightarrow>
              length (thermalEvents (runPolls polls s) (p_id pr))
                = length (thermalEvents s (p_id pr)) + length polls)
         \<and> length (thermalEvents (runPolls polls s) (p_id pr))
             \<le> length (thermalEvents s (p_id pr))
               + length (filter (\<lambda>(fails, answer, now). overLimit pr answer) polls)"
proof (intro conjI impI)
  assume "\<forall>(fails, answer, now) \<in> set polls. runsThrough fails answer s"
  with assms show "length (thermalEvents (runPolls polls s) (p_id pr))
              = length (thermalEvents s (p_id pr))
                + length (filter (\<lambda>(fails, answer, now). overLimit pr answer) polls)"
    by (rule runPolls_events_through)
next
  assume all: "\<forall>(fails, answer, now) \<in> set polls.
                 runsThrough fails answer s \<and> overLimit pr answer"
  then have "\<forall>(fails, answer, now) \<in> set polls. runsThrough fails answer s"
    by auto
  with assms have "length (thermalEvents (runPolls polls s) (p_id pr))
              = length (thermalEvents s (p_id pr))
                + length (filter (\<lambda>(fails, answer, now). overLimit pr answer) polls)"
    by (rule runPolls_events_through)
  moreover have "filter (\<lambda>(fails, answer, now). overLimit pr answer) polls = polls"
    using all by (auto simp: filter_id_conv)
  ultimately show "length (thermalEvents (runPolls polls s) (p_id pr))
                = length (thermalEvents s (p_id pr)) + length polls"
    by simp
next
  from assms show "length (thermalEvents (runPolls polls s) (p_id pr))
             \<le> length (thermalEvents s (p_id pr))
               + length (filter (\<lambda>(fails, answer, now). overLimit pr answer) polls)"
    by (rule runPolls_events_le)
qed

theorem thermal_event_per_hot_poll_witness:
  "distinct (map p_id (db_printer fleet_fresh))
   \<and> printerA \<in> set (db_printer fleet_fresh) \<and> p_isActive printerA
   \<and> overLimit printerA hot_answer \<and> \<not> overLimit printerA warm_answer
   \<and> runsThrough no_fault hot_answer fleet_fresh
   \<and> runsThrough no_fault warm_answer fleet_fresh
   \<and> length (thermalEvents
                (runPolls [(no_fault, hot_answer, 1), (no_fault, warm_answer, 2),
                           (no_fault, hot_answer, 3)] fleet_fresh)
                (p_id printerA)) = 2
   \<and> length (thermalEvents
                (runPolls [(no_fault, hot_answer, 1), (no_fault, hot_answer, 2)] fleet_fresh)
                (p_id printerA)) = 2
   \<and> length (thermalEvents (runPolls [(no_fault, odd_answer, 1)] fleet_fresh)
                (p_id printerA)) \<le> 1"
proof -
  note t = thermal_event_per_hot_poll [OF fleet_fresh_printers]
  have through: "\<forall>(fails, answer, now)
                   \<in> set [(no_fault, hot_answer, 1), (no_fault, warm_answer, 2),
                           (no_fault, hot_answer, 3 :: int)]. runsThrough fails answer fleet_fresh"
    by (simp add: hot_answer_through warm_answer_through)
  from t [of "[(no_fault, hot_answer, 1), (no_fault, warm_answer, 2), (no_fault, hot_answer, 3)]"]
    through
  have 1: "length (thermalEvents
                (runPolls [(no_fault, hot_answer, 1), (no_fault, warm_answer, 2),
                           (no_fault, hot_answer, 3)] fleet_fresh)
                (p_id printerA)) = 2"
    by (simp add: fleet_fresh_events hot_answer_overLimit warm_answer_under)
  have all: "\<forall>(fails, answer, now)
               \<in> set [(no_fault, hot_answer, 1), (no_fault, hot_answer, 2 :: int)].
               runsThrough fails answer fleet_fresh \<and> overLimit printerA answer"
    by (simp add: hot_answer_overLimit hot_answer_through)
  from t [of "[(no_fault, hot_answer, 1), (no_fault, hot_answer, 2)]"] all
  have 2: "length (thermalEvents
                (runPolls [(no_fault, hot_answer, 1), (no_fault, hot_answer, 2)] fleet_fresh)
                (p_id printerA)) = 2"
    by (simp add: fleet_fresh_events)
  from t [of "[(no_fault, odd_answer, 1)]"]
  have 3: "length (thermalEvents (runPolls [(no_fault, odd_answer, 1)] fleet_fresh)
                (p_id printerA)) \<le> 1"
    by (simp add: fleet_fresh_events odd_answer_overLimit)
  from fleet_fresh_printers hot_answer_overLimit warm_answer_under hot_answer_through
    warm_answer_through 1 2 3
  show ?thesis by blast
qed

text \<open>
  The claim C5 as stated fails: five consecutive polls at 300 degrees against the
  limit of 260, none of them cut short, store five critical events for the printer,
  not one.
\<close>

theorem five_hot_polls_five_events:
  "p_maxTempExtruder printerA = 260
   \<and> map (\<lambda>(fails, answer, now).
            pd_extruderTemp (pollPrinter printerA (answer (p_ipAddress printerA))))
         five_hot_polls = [300, 300, 300, 300, 300]
   \<and> length (thermalEvents fleet_fresh (p_id printerA)) = 0
   \<and> length (thermalEvents (runPolls five_hot_polls fleet_fresh) (p_id printerA)) = 5"
proof -
  have "\<forall>(fails, answer, now) \<in> set five_hot_polls. runsThrough fails answer fleet_fresh"
    by (simp add: five_hot_polls_def hot_answer_through)
  with fleet_fresh_printers
  have "length (thermalEvents (runPolls five_hot_polls fleet_fresh) (p_id printerA))
        = length (thermalEvents fleet_fresh (p_id printerA))
          + length (filter (\<lambda>(fails, answer, now). overLimit printerA answer) five_hot_polls)"
    by (rule runPolls_events_through)
  then have "length (thermalEvents (runPolls five_hot_polls fleet_fresh) (p_id printerA)) = 5"
    by (simp add: fleet_fresh_events five_hot_polls_def hot_answer_overLimit)
  moreover have "map (\<lambda>(fails, answer, now).
                        pd_extruderTemp (pollPrinter printerA (answer (p_ipAddress printerA))))
                   five_hot_polls = [300, 300, 300, 300, 300]"
    by (simp add: five_hot_polls_def hot_answer_def pollPrinter_def printerA_def js_or0_def)
  ultimately show ?thesis
    by (simp add: fleet_fresh_events) (simp add: printerA_def)
qed

section \<open>Properties of the manual assignment route\<close>

lemma assignJob_busy:
  assumes "find (\<lambda>p. p_id p = printerId) (db_printer s) = Some pr"
    and "latestTelemetry s printerId = Some t" and "t_status t = ''printing''"
  shows "assignJob fails now userId queueItemId printerId s = (PrinterBusy, s)"
  using assms by (simp add: assignJob_def)

lemma assignJob_commits:
  assumes pr: "find (\<lambda>p. p_id p = printerId) (db_printer s) = Some pr"
    and free: "latestTelemetry s printerId = None
               \<or> (\<exists>t. latestTelemetry s printerId = Some t \<and> t_status t \<noteq> ''printing'')"
    and q: "find (\<lambda>q. q_id q = queueItemId) (db_queueItem s) = Some q"
    and j: "q_jobId q \<in> j_id ` set (db_job s)"
  shows "assignJob no_fault now userId queueItemId printerId s
         = (Json (q\<lparr>q_printerId := Some printerId, q_status := ''assigned''\<rparr>),
            s\<lparr>db_queueItem :=
                 map (\<lambda>q. if q_id q = queueItemId
                           then q\<lparr>q_printerId := Some printerId, q_status := ''assigned''\<rparr>
                           else q) (db_queueItem s),
               db_job :=
                 map (\<lambda>j. if j_id j = q_jobId q
                           then j\<lparr>j_printerId := Some printerId, j_status := ''printing'',
                                  j_startedAt := Some now\<rparr>
                           else j) (db_job s),
               db_auditLog := db_auditLog s @
                 [\<lparr>al_userId = userId, al_action = ''JOB_ASSIGNED'', al_entity = ''QueueItem'',
                   al_entityId = queueItemId, al_details = printerId\<rparr>]\<rparr>)"
proof -
  let ?s1 = "s\<lparr>db_queueItem :=
                 map (\<lambda>q. if q_id q = queueItemId
                           then q\<lparr>q_printerId := Some printerId, q_status := ''assigned''\<rparr>
                           else q) (db_queueItem s)\<rparr>"
  have busy: "\<not> (case latestTelemetry s printerId of
                   None \<Rightarrow> False | Some t \<Rightarrow> t_status t = ''printing'')"
    using free by auto
  have u: "queueItem_update no_fault queueItemId printerId s
           = Some (q\<lparr>q_printerId := Some printerId, q_status := ''assigned''\<rparr>, ?s1)"
    using q by (simp add: queueItem_update_def no_fault_def)
  have "q_jobId q \<in> j_id ` set (db_job ?s1)" using j by simp
  note w = job_update_ok [OF this, of printerId now]
  show ?thesis
    using pr busy by (simp add: assignJob_def u w) (simp add: no_fault_def)
qed

text \<open>
  C8, as the code has it. Past the energy gate and for a printer that exists, the
  manual route answers "printer busy" and leaves the store as it was when the
  printer's latest reading says printing. When the latest reading says idle, and just
  the same when it says offline or the printer has no reading at all, the busy check
  passes: with the queue entry and its job stored and no write failing, the entry is
  assigned to the printer, its job set printing there, and the assignment logged.
\<close>

theorem manual_assign_busy_only_when_printing:
  assumes "energyGate (db_energySettings s) (latestEnergy s) = None"
    and "find (\<lambda>p. p_id p = printerId) (db_printer s) = Some pr"
  shows "(\<forall>t. latestTelemetry s printerId = Some t \<and> t_status t = ''printing'' \<longrightarrow>
            assign fails now userId queueItemId printerId s = (PrinterBusy, s))
         \<and> ((latestTelemetry s printerId = None
              \<or> (\<exists>t. latestTelemetry s printerId = Some t
                       \<and> (t_status t = ''idle'' \<or> t_status t = ''offline'')))
             \<and> find (\<lambda>q. q_id q = queueItemId) (db_queueItem s) = Some q
             \<and> q_jobId q \<in> j_id ` set (db_job s) \<longrightarrow>
             assign no_fault now userId queueItemId printerId s
             = (Json (q\<lparr>q_printerId := Some printerId, q_status := ''assigned''\<rparr>),
                s\<lparr>db_queueItem :=
                     map (\<lambda>q. if q_id q = queueItemId
                               then q\<lparr>q_printerId := Some printerId, q_status := ''assigned''\<rparr>
                               else q) (db_queueItem s),
                   db_job :=
                     map (\<lambda>j. if j_id j = q_jobId q
                               then j\<lparr>j_printerId := Some printerId, j_status := ''printing'',
                                      j_startedAt := Some now\<rparr>
                               else j) (db_job s),
                   db_auditLog := db_auditLog s @
                     [\<lparr>al_userId = userId, al_action = ''JOB_ASSIGNED'',
                       al_entity = ''QueueItem'', al_entityId = queueItemId,
                       al_details = printerId\<rparr>]\<rparr>))"
proof (intro conjI allI impI)
  fix t
  assume "latestTelemetry s printerId = Some t \<and> t_status t = ''printing''"
  then show "assign fails now userId queueItemId printerId s = (PrinterBusy, s)"
    using assms by (simp add: assign_def assignJob_busy)
next
  assume h: "(latestTelemetry s printerId = None
              \<or> (\<exists>t. latestTelemetry s printerId = Some t
                       \<and> (t_status t = ''idle'' \<or> t_status t = ''offline'')))
             \<and> find (\<lambda>q. q_id q = queueItemId) (db_queueItem s) = Some q
             \<and> q_jobId q \<in> j_id ` set (db_job s)"
  then have free: "latestTelemetry s printerId = None
               \<or> (\<exists>t. latestTelemetry s printerId = Some t \<and> t_status t \<noteq> ''printing'')"
    by auto
  from h have q: "find (\<lambda>q. q_id q = queueItemId) (db_queueItem s) = Some q"
    and j: "q_jobId q \<in> j_id ` set (db_job s)" by simp_all
  show "assign no_fault now userId queueItemId printerId s
             = (Json (q\<lparr>q_printerId := Some printerId, q_status := ''assigned''\<rparr>),
                s\<lparr>db_queueItem :=
                     map (\<lambda>q. if q_id q = queueItemId
                               then q\<lparr>q_printerId := Some printerId, q_status := ''assigned''\<rparr>
                               else q) (db_queueItem s),
                   db_job :=
                     map (\<lambda>j. if j_id j = q_jobId q
                               then j\<lparr>j_printerId := Some printerId, j_status := ''printing'',
                                      j_startedAt := Some now\<rparr>
                               else j) (db_job s),
                   db_auditLog := db_auditLog s @
                     [\<lparr>al_userId = userId, al_action = ''JOB_ASSIGNED'',
                       al_entity = ''QueueItem'', al_entityId = queueItemId,
                       al_details = printerId\<rparr>]\<rparr>)"
    using assms(1) assignJob_commits [OF assms(2) free q j, of now userId]
    by (simp add: assign_def)
qed

lemma fleet_scenario_printerA:
  "find (\<lambda>p. p_id p = 1) (db_printer fleet_scenario) = Some printerA"
  by (simp add: fleet_scenario_def fleet_def printerA_def)

lemma fleet_scenario_printerB:
  "find (\<lambda>p. p_id p = 2) (db_printer fleet_scenario) = Some printerB"
  by (simp add: fleet_scenario_def fleet_def printerA_def printerB_def)

theorem manual_assign_busy_only_when_printing_witness:
  "energyGate (db_energySettings fleet_scenario) (latestEnergy fleet_scenario) = None
   \<and> latestTelemetry fleet_scenario 2 = Some (telemetry 2 2 ''printing'' 5)
   \<and> assign no_fault 100 7 2 2 fleet_scenario = (PrinterBusy, fleet_scenario)
   \<and> latestTelemetry fleet_scenario 1 = Some (telemetry 1 1 ''idle'' 5)
   \<and> fst (assign no_fault 100 7 2 1 fleet_scenario)
       = Json ((entry 2 1 2)\<lparr>q_printerId := Some 1, q_status := ''assigned''\<rparr>)
   \<and> db_queueItem (snd (assign no_fault 100 7 2 1 fleet_scenario))
       = [entry 1 5 1, (entry 2 1 2)\<lparr>q_printerId := Some 1, q_status := ''assigned''\<rparr>]
   \<and> db_job (snd (assign no_fault 100 7 2 1 fleet_scenario))
       = [work 1, (work 2)\<lparr>j_printerId := Some 1, j_status := ''printing'',
                            j_startedAt := Some 100\<rparr>]"
proof -
  have b: "latestTelemetry fleet_scenario 2 = Some (telemetry 2 2 ''printing'' 5)"
    and a: "latestTelemetry fleet_scenario 1 = Some (telemetry 1 1 ''idle'' 5)"
    by (simp_all add: fleet_scenario_def fleet_defs latestTelemetry_def)
  have bs: "t_status (telemetry 2 2 ''printing'' 5) = ''printing''"
    and as: "t_status (telemetry 1 1 ''idle'' 5) = ''idle''"
    by (simp_all add: telemetry_def)
  have q: "find (\<lambda>q. q_id q = 2) (db_queueItem fleet_scenario) = Some (entry 2 1 2)"
    by (simp add: fleet_scenario_def fleet_defs)
  have j: "q_jobId (entry 2 1 2) \<in> j_id ` set (db_job fleet_scenario)"
    by (simp add: fleet_scenario_def fleet_defs)
  from manual_assign_busy_only_when_printing
         [OF fleet_scenario_gate fleet_scenario_printerB,
           where fails = no_fault and now = 100 and userId = 7 and queueItemId = 2] b bs
  have 1: "assign no_fault 100 7 2 2 fleet_scenario = (PrinterBusy, fleet_scenario)"
    by blast
  from manual_assign_busy_only_when_printing
         [OF fleet_scenario_gate fleet_scenario_printerA,
           where queueItemId = 2 and q = "entry 2 1 2" and now = 100 and userId = 7] a as q j
  have 2: "assign no_fault 100 7 2 1 fleet_scenario
           = (Json ((entry 2 1 2)\<lparr>q_printerId := Some 1, q_status := ''assigned''\<rparr>),
              fleet_scenario\<lparr>db_queueItem :=
                     map (\<lambda>q. if q_id q = 2
                               then q\<lparr>q_printerId := Some 1, q_status := ''assigned''\<rparr>
                               else q) (db_queueItem fleet_scenario),
                   db_job :=
                     map (\<lambda>j. if j_id j = q_jobId (entry 2 1 2)
                               then j\<lparr>j_printerId := Some 1, j_status := ''printing'',
                                      j_startedAt := Some 100\<rparr>
                               else j) (db_job fleet_scenario),
                   db_auditLog := db_auditLog fleet_scenario @
                     [\<lparr>al_userId = 7, al_action = ''JOB_ASSIGNED'',
                       al_entity = ''QueueItem'', al_entityId = 2,
                       al_details = 1\<rparr>]\<rparr>)"
    by blast
  have 3: "db_queueItem (snd (assign no_fault 100 7 2 1 fleet_scenario))
       = [entry 1 5 1, (entry 2 1 2)\<lparr>q_printerId := Some 1, q_status := ''assigned''\<rparr>]"
    unfolding 2 by (simp add: fleet_scenario_def fleet_defs)
  have 4: "db_job (snd (assign no_fault 100 7 2 1 fleet_scenario))
       = [work 1, (work 2)\<lparr>j_printerId := Some 1, j_status := ''printing'',
                            j_startedAt := Some 100\<rparr>]"
    unfolding 2 by (simp add: fleet_scenario_def fleet_defs)
  from fleet_scenario_gate b a 1 2 3 4 show ?thesis by simp
qed

text \<open>
  The claim C8 as stated fails: printer A's latest reading says offline, and the manual
  route assigns the entry to it.
\<close>

theorem manual_assign_to_offline_printer:
  "latestTelemetry fleet_offline 1 = Some (telemetry 1 1 ''offline'' 5)
   \<and> fst (assign no_fault 100 7 1 1 fleet_offline)
       = Json ((entry 1 5 1)\<lparr>q_printerId := Some 1, q_status := ''assigned''\<rparr>)
   \<and> db_queueItem (snd (assign no_fault 100 7 1 1 fleet_offline))
       = [(entry 1 5 1)\<lparr>q_printerId := Some 1, q_status := ''assigned''\<rparr>]
   \<and> db_job (snd (assign no_fault 100 7 1 1 fleet_offline))
       = [(work 1)\<lparr>j_printerId := Some 1, j_status := ''printing'', j_startedAt := Some 100\<rparr>]"
  by (simp add: fleet_offline_def fleet_defs assign_defs)

text \<open>
  C6, the code at the failing input. The only entry is already assigned to printer A
  and its job is printing there; the manual route, asked to assign it to printer B,
  answers with the updated entry and moves entry and job to printer B.
\<close>

theorem manual_assign_moves_assigned_entry:
  "db_queueItem fleet_assigned
     = [(entry 1 5 1)\<lparr>q_printerId := Some 1, q_status := ''assigned''\<rparr>]
   \<and> fst (assign no_fault 200 7 1 2 fleet_assigned)
       = Json ((entry 1 5 1)\<lparr>q_printerId := Some 2, q_status := ''assigned''\<rparr>)
   \<and> db_queueItem (snd (assign no_fault 200 7 1 2 fleet_assigned))
       = [(entry 1 5 1)\<lparr>q_printerId := Some 2, q_status := ''assigned''\<rparr>]
   \<and> db_job (snd (assign no_fault 200 7 1 2 fleet_assigned))
       = [(work 1)\<lparr>j_printerId := Some 2, j_status := ''printing'', j_startedAt := Some 200\<rparr>]"
  by (simp add: fleet_assigned_def fleet_defs assign_defs)

text \<open>
  C3, the code at the failing input. The write to job 2 throws after the write to its
  queue entry has committed. On the scheduler path and on the manual route alike the
  entry is left assigned to printer A while its job is still queued with no printer.
\<close>

theorem assignment_half_committed:
  "db_queueItem (processQueue job2_write_fails tick_clock fleet_scenario)
     = [entry 1 5 1, (entry 2 1 2)\<lparr>q_printerId := Some 1, q_status := ''assigned''\<rparr>]
   \<and> db_job (processQueue job2_write_fails tick_clock fleet_scenario) = [work 1, work 2]
   \<and> fst (assign job2_write_fails 100 7 2 1 fleet_scenario) = FailedToAssign
   \<and> db_queueItem (snd (assign job2_write_fails 100 7 2 1 fleet_scenario))
       = [entry 1 5 1, (entry 2 1 2)\<lparr>q_printerId := Some 1, q_status := ''assigned''\<rparr>]
   \<and> db_job (snd (assign job2_write_fails 100 7 2 1 fleet_scenario)) = [work 1, work 2]"
proof -
  have tick: "processQueue job2_write_fails tick_clock fleet_scenario
     = fleet_scenario\<lparr>db_queueItem :=
         [entry 1 5 1, (entry 2 1 2)\<lparr>q_printerId := Some 1, q_status := ''assigned''\<rparr>]\<rparr>"
    by (simp add: fleet_scenario_def fleet_defs tick_defs job2_write_fails_def)
  have manual: "assign job2_write_fails 100 7 2 1 fleet_scenario
     = (FailedToAssign,
        fleet_scenario\<lparr>db_queueItem :=
          [entry 1 5 1, (entry 2 1 2)\<lparr>q_printerId := Some 1, q_status := ''assigned''\<rparr>]\<rparr>)"
    by (simp add: fleet_scenario_def fleet_defs assign_defs job2_write_fails_def)
  have jobs: "db_job fleet_scenario = [work 1, work 2]"
    by (simp add: fleet_scenario_def fleet_def)
  show ?thesis
    unfolding tick manual by (simp add: jobs)
qed

end
